theory Spec2Isabelle
  imports Complex_Main "HOL-Library.Sublist"
begin

section \<open>Python strings\<close>

text \<open>
  A Python \<open>str\<close> is modelled as a \<open>string\<close> whose characters are the code points
  below 256. The functions below are the \<open>str\<close> methods and builtins that
  \<open>SF_record_search_4.py\<close> calls, restricted to that range.
\<close>

definition isspace :: "char \<Rightarrow> bool" where
  \<comment> \<open>the code points below 256 that \<open>str.isspace\<close> accepts\<close>
  "isspace c = (c \<in> set [CHR 0x09, CHR 0x0A, CHR 0x0B, CHR 0x0C, CHR 0x0D,
                         CHR 0x1C, CHR 0x1D, CHR 0x1E, CHR 0x1F, CHR 0x20,
                         CHR 0x85, CHR 0xA0])"

definition strip :: "string \<Rightarrow> string" where
  \<comment> \<open>\<open>s.strip()\<close>\<close>
  "strip s = rev (dropWhile isspace (rev (dropWhile isspace s)))"

definition upper_chars :: string where
  "upper_chars = ''ABCDEFGHIJKLMNOPQRSTUVWXYZ'' @
     [CHR 0xC0, CHR 0xC1, CHR 0xC2, CHR 0xC3, CHR 0xC4, CHR 0xC5, CHR 0xC6, CHR 0xC7,
      CHR 0xC8, CHR 0xC9, CHR 0xCA, CHR 0xCB, CHR 0xCC, CHR 0xCD, CHR 0xCE, CHR 0xCF,
      CHR 0xD0, CHR 0xD1, CHR 0xD2, CHR 0xD3, CHR 0xD4, CHR 0xD5, CHR 0xD6,
      CHR 0xD8, CHR 0xD9, CHR 0xDA, CHR 0xDB, CHR 0xDC, CHR 0xDD, CHR 0xDE]"

definition lower_chars :: string where
  "lower_chars = ''abcdefghijklmnopqrstuvwxyz'' @
     [CHR 0xE0, CHR 0xE1, CHR 0xE2, CHR 0xE3, CHR 0xE4, CHR 0xE5, CHR 0xE6, CHR 0xE7,
      CHR 0xE8, CHR 0xE9, CHR 0xEA, CHR 0xEB, CHR 0xEC, CHR 0xED, CHR 0xEE, CHR 0xEF,
      CHR 0xF0, CHR 0xF1, CHR 0xF2, CHR 0xF3, CHR 0xF4, CHR 0xF5, CHR 0xF6,
      CHR 0xF8, CHR 0xF9, CHR 0xFA, CHR 0xFB, CHR 0xFC, CHR 0xFD, CHR 0xFE]"

definition lower_char :: "char \<Rightarrow> char" where
  "lower_char c = (case map_of (zip upper_chars lower_chars) c of Some l \<Rightarrow> l | None \<Rightarrow> c)"

definition lower :: "string \<Rightarrow> string" where
  \<comment> \<open>\<open>s.lower()\<close>\<close>
  "lower s = map lower_char s"

fun split_acc :: "string \<Rightarrow> string \<Rightarrow> string list" where
  "split_acc cur [] = (if cur = [] then [] else [cur])"
| "split_acc cur (c # cs) =
     (if isspace c then (if cur = [] then split_acc [] cs else cur # split_acc [] cs)
      else split_acc (cur @ [c]) cs)"

definition split_ws :: "string \<Rightarrow> string list" where
  \<comment> \<open>\<open>s.split()\<close>: the maximal runs of non-whitespace characters\<close>
  "split_ws s = split_acc [] s"

fun split_on_acc :: "char \<Rightarrow> string \<Rightarrow> string \<Rightarrow> string list" where
  "split_on_acc d cur [] = [cur]"
| "split_on_acc d cur (c # cs) =
     (if c = d then cur # split_on_acc d [] cs else split_on_acc d (cur @ [c]) cs)"

definition split_on :: "char \<Rightarrow> string \<Rightarrow> string list" where
  \<comment> \<open>\<open>s.split(d)\<close> for a one-character separator\<close>
  "split_on d s = split_on_acc d [] s"

fun join :: "string \<Rightarrow> string list \<Rightarrow> string" where
  \<comment> \<open>\<open>sep.join(xs)\<close>\<close>
  "join sep [] = []"
| "join sep [x] = x"
| "join sep (x # y # ys) = x @ sep @ join sep (y # ys)"

function digits_of :: "nat \<Rightarrow> string" where
  "digits_of n =
     (if n < 10 then [''0123456789'' ! n]
      else digits_of (n div 10) @ [''0123456789'' ! (n mod 10)])"
  by pat_completeness auto
termination
  by (relation "measure id") auto

definition str_int :: "int \<Rightarrow> string" where
  \<comment> \<open>\<open>str(n)\<close>, the way an f-string formats an \<open>int\<close>\<close>
  "str_int n = (if n < 0 then CHR ''-'' # digits_of (nat (- n)) else digits_of (nat n))"

definition is_digit :: "char \<Rightarrow> bool" where
  "is_digit c = (c \<in> set ''0123456789'')"

definition digit_val :: "char \<Rightarrow> nat" where
  "digit_val c = (case map_of (zip ''0123456789'' [0, 1, 2, 3, 4, 5, 6, 7, 8, 9]) c of
                    Some d \<Rightarrow> d | None \<Rightarrow> 0)"

fun parse_digits :: "nat \<Rightarrow> string \<Rightarrow> nat option" where
  \<comment> \<open>the digits after the first one; a single underscore may stand between two digits\<close>
  "parse_digits acc [] = Some acc"
| "parse_digits acc (c # cs) =
     (if is_digit c then parse_digits (10 * acc + digit_val c) cs
      else if c = CHR ''_'' then
        (case cs of
           [] \<Rightarrow> None
         | d # ds \<Rightarrow> if is_digit d then parse_digits (10 * acc + digit_val d) ds else None)
      else None)"

definition parse_unsigned :: "string \<Rightarrow> nat option" where
  "parse_unsigned s =
     (case s of
        [] \<Rightarrow> None
      | c # cs \<Rightarrow> if is_digit c then parse_digits (digit_val c) cs else None)"

definition py_int :: "string \<Rightarrow> int option" where
  \<comment> \<open>\<open>int(s)\<close> in base 10; \<open>None\<close> stands for the \<open>ValueError\<close> it raises\<close>
  "py_int s =
     (case strip s of
        [] \<Rightarrow> None
      | c # r \<Rightarrow>
          if c = CHR ''-'' then map_option (\<lambda>n. - int n) (parse_unsigned r)
          else if c = CHR ''+'' then map_option int (parse_unsigned r)
          else map_option int (parse_unsigned (c # r)))"

section \<open>Python values and exceptions\<close>

datatype py_error =
    AttributeError | TypeError | KeyError | JSONDecodeError | ValueError | EOFError
  | FieldNamesError  \<comment> \<open>raised by \<open>PrettyTable\<close> for field names that are not unique\<close>

datatype pyfloat = Finite rat | PosInf | NegInf | NaN

text \<open>
  What \<open>json.loads\<close> returns. A \<open>dict\<close> is an association list; a key is looked up
  with \<open>map_of\<close>.
\<close>

datatype json =
    JNull | JBool bool | JInt int | JFloat pyfloat | JStr string
  | JArr "json list" | JObj "(string \<times> json) list"

fun truthy :: "json \<Rightarrow> bool" where
  \<comment> \<open>the truth value Python gives a value in \<open>if v\<close> and \<open>not v\<close>\<close>
  "truthy JNull = False"
| "truthy (JBool b) = b"
| "truthy (JInt n) = (n \<noteq> 0)"
| "truthy (JFloat f) = (f \<noteq> Finite 0)"
| "truthy (JStr s) = (s \<noteq> [])"
| "truthy (JArr xs) = (xs \<noteq> [])"
| "truthy (JObj kvs) = (kvs \<noteq> [])"

definition dict_get :: "(string \<times> json) list \<Rightarrow> string \<Rightarrow> json \<Rightarrow> json" where
  "dict_get kvs k d = (case map_of kvs k of Some v \<Rightarrow> v | None \<Rightarrow> d)"

definition get_method :: "json \<Rightarrow> string \<Rightarrow> json \<Rightarrow> py_error + json" where
  \<comment> \<open>\<open>v.get(k, d)\<close>: only a \<open>dict\<close> has the method\<close>
  "get_method v k d = (case v of JObj kvs \<Rightarrow> Inr (dict_get kvs k d) | _ \<Rightarrow> Inl AttributeError)"

definition subscript :: "json \<Rightarrow> string \<Rightarrow> py_error + json" where
  \<comment> \<open>\<open>v[k]\<close> for a string \<open>k\<close>\<close>
  "subscript v k =
     (case v of
        JObj kvs \<Rightarrow> (case map_of kvs k of Some x \<Rightarrow> Inr x | None \<Rightarrow> Inl KeyError)
      | _ \<Rightarrow> Inl TypeError)"

definition py_iter :: "json \<Rightarrow> py_error + json list" where
  \<comment> \<open>the elements \<open>for x in v\<close> visits: a \<open>dict\<close> yields its keys, a \<open>str\<close> its characters\<close>
  "py_iter v =
     (case v of
        JArr xs \<Rightarrow> Inr xs
      | JObj kvs \<Rightarrow> Inr (map (\<lambda>kv. JStr (fst kv)) kvs)
      | JStr s \<Rightarrow> Inr (map (\<lambda>c. JStr [c]) s)
      | _ \<Rightarrow> Inl TypeError)"

section \<open>The environment\<close>

text \<open>
  \<open>subprocess.run(..., check=True, timeout=...)\<close> either completes with exit status 0
  and its standard output, runs into the timeout, or exits with another status and its
  standard error. The executor is the external tool: it answers the \<open>k\<close>-th command of
  a run. \<open>json.loads\<close> is the loader, \<open>None\<close> standing for \<open>JSONDecodeError\<close>.
\<close>

datatype proc_outcome = Completed string | TimeoutExpired | CalledProcessError string

type_synonym executor = "nat \<Rightarrow> string \<Rightarrow> proc_outcome"

type_synonym loader = "string \<Rightarrow> json option"

datatype search_result = Text string | Table "string list" "json list list"

datatype event =
    Prompt string  \<comment> \<open>\<open>input(prompt)\<close> shows its prompt\<close>
  | Print string
  | PrintResult search_result
  | PrintFields "(json \<times> json \<times> bool) list"
  | Run string  \<comment> \<open>\<open>subprocess.run\<close> starts a command\<close>
  | LogInfo string
  | LogError string

type_synonym world = "event list"

fun invoked :: "world \<Rightarrow> string list" where
  "invoked [] = []"
| "invoked (Run c # es) = c # invoked es"
| "invoked (e # es) = invoked es"

section \<open>The functions of \<open>SF_record_search_4.py\<close>\<close>

definition run_command :: "executor \<Rightarrow> string \<Rightarrow> world \<Rightarrow> string \<times> world" where
  "run_command exec command w =
     (case exec (length (invoked w)) command of
        Completed out \<Rightarrow> (strip out, w @ [Run command])
      | TimeoutExpired \<Rightarrow>
          (''Error: Command timed out.'',
           w @ [Run command, LogError (''Command timed out: '' @ command)])
      | CalledProcessError err \<Rightarrow>
          (''Error: '' @ strip err,
           w @ [Run command, LogError (''Command failed: '' @ strip err)]))"

fun any_alias :: "json list \<Rightarrow> string \<Rightarrow> py_error + bool" where
  \<comment> \<open>\<open>any(org.get("alias") == org_alias for org in authenticated_orgs)\<close>\<close>
  "any_alias [] org_alias = Inr False"
| "any_alias (org # orgs) org_alias =
     (case get_method org ''alias'' JNull of
        Inl e \<Rightarrow> Inl e
      | Inr v \<Rightarrow> if v = JStr org_alias then Inr True else any_alias orgs org_alias)"

definition authenticate_org ::
  "executor \<Rightarrow> loader \<Rightarrow> string \<Rightarrow> world \<Rightarrow> (py_error + bool) \<times> world" where
  "authenticate_org exec loads org_alias w =
     (let (response, w1) = run_command exec ''sfdx force:auth:list --json'' w in
      if prefix ''Error:'' response then (Inr False, w1)
      else
        (case loads response of
           None \<Rightarrow> (Inr False, w1)
         | Some parsed \<Rightarrow>
             (case get_method parsed ''result'' (JArr []) of
                Inl e \<Rightarrow> (Inl e, w1)
              | Inr authenticated_orgs \<Rightarrow>
                  (case py_iter authenticated_orgs of
                     Inl e \<Rightarrow> (Inl e, w1)
                   | Inr orgs \<Rightarrow> (any_alias orgs org_alias, w1)))))"

definition fetch_objects ::
  "executor \<Rightarrow> loader \<Rightarrow> string \<Rightarrow> world \<Rightarrow> (py_error + json) \<times> world" where
  "fetch_objects exec loads org_alias w =
     (let (response, w1) =
            run_command exec
              (''sfdx force:schema:sobject:list --target-org '' @ org_alias @ '' --json'') w in
      if prefix ''Error:'' response then (Inr (JArr []), w1)
      else
        (case loads response of
           None \<Rightarrow> (Inr (JArr []), w1)
         | Some parsed \<Rightarrow> (get_method parsed ''result'' (JArr []), w1)))"

definition is_required :: "(string \<times> json) list \<Rightarrow> bool" where
  \<comment> \<open>\<open>not field.get("nillable", True) and field.get("createable", False)\<close>\<close>
  "is_required field =
     (\<not> truthy (dict_get field ''nillable'' (JBool True)) \<and>
      truthy (dict_get field ''createable'' (JBool False)))"

text \<open>
  The loop over the fields. A table row is the name, the type and the marker column,
  \<open>True\<close> for the check mark and \<open>False\<close> for the empty string.
\<close>

fun describe_loop ::
  "json list \<Rightarrow> (json \<times> json \<times> bool) list \<Rightarrow> json list \<Rightarrow>
   py_error + ((json \<times> json \<times> bool) list \<times> json list)" where
  "describe_loop [] table required_fields = Inr (table, required_fields)"
| "describe_loop (field # rest) table required_fields =
     (case field of
        JObj kvs \<Rightarrow>
          (case map_of kvs ''name'' of
             None \<Rightarrow> Inl KeyError
           | Some name \<Rightarrow>
               (case map_of kvs ''type'' of
                  None \<Rightarrow> Inl KeyError
                | Some ty \<Rightarrow>
                    describe_loop rest (table @ [(name, ty, is_required kvs)])
                      (if is_required kvs then required_fields @ [name] else required_fields)))
      | _ \<Rightarrow> Inl AttributeError)"

fun field_names :: "json list \<Rightarrow> py_error + json list" where
  \<comment> \<open>\<open>[field["name"] for field in fields]\<close>\<close>
  "field_names [] = Inr []"
| "field_names (field # rest) =
     (case subscript field ''name'' of
        Inl e \<Rightarrow> Inl e
      | Inr name \<Rightarrow> (case field_names rest of Inl e \<Rightarrow> Inl e | Inr names \<Rightarrow> Inr (name # names)))"

definition describe_body ::
  "json \<Rightarrow> py_error + ((json \<times> json \<times> bool) list \<times> json list \<times> json list)" where
  \<comment> \<open>the \<open>try\<close> block after \<open>json.loads\<close>: the table, all names, the required names\<close>
  "describe_body parsed =
     (case subscript parsed ''result'' of
        Inl e \<Rightarrow> Inl e
      | Inr result \<Rightarrow>
          (case subscript result ''fields'' of
             Inl e \<Rightarrow> Inl e
           | Inr fields \<Rightarrow>
               (case py_iter fields of
                  Inl e \<Rightarrow> Inl e
                | Inr fs \<Rightarrow>
                    (case describe_loop fs [] [] of
                       Inl e \<Rightarrow> Inl e
                     | Inr (table, required_fields) \<Rightarrow>
                         (case field_names fs of
                            Inl e \<Rightarrow> Inl e
                          | Inr names \<Rightarrow> Inr (table, names, required_fields))))))"

definition describe_object ::
  "executor \<Rightarrow> loader \<Rightarrow> string \<Rightarrow> string \<Rightarrow> world \<Rightarrow>
   (py_error + (json list \<times> json list)) \<times> world" where
  "describe_object exec loads org_alias object_name w =
     (let (response, w1) =
            run_command exec
              (''sfdx sobject:describe -o '' @ org_alias @ '' -s '' @ object_name @ '' --json'') w in
      if prefix ''Error:'' response
      then (Inr ([], []), w1 @ [Print ''Error: Unable to describe the object.''])
      else
        (case loads response of
           None \<Rightarrow> (Inr ([], []), w1 @ [LogError ''Error parsing describe results.''])
         | Some parsed \<Rightarrow>
             (case describe_body parsed of
                Inl e \<Rightarrow>
                  if e = JSONDecodeError \<or> e = KeyError
                  then (Inr ([], []), w1 @ [LogError ''Error parsing describe results.''])
                  else (Inl e, w1)
              | Inr (table, names, required_fields) \<Rightarrow>
                  (Inr (names, required_fields),
                   w1 @ [Print (CHR 0x0A # ''Available Fields:''), PrintFields table]))))"

text \<open>
  The arguments of \<open>SF_record_search\<close> as its callers pass them: \<open>keyword\<close> is a
  \<open>str\<close> or \<open>None\<close>; \<open>limit\<close> is \<open>None\<close>, an \<open>int\<close> or a \<open>str\<close>; \<open>fields\<close> is
  \<open>None\<close>, a list of \<open>str\<close> or (from \<open>main\<close>) a \<open>str\<close>.
\<close>

datatype limit_arg = LimitNone | LimitInt int | LimitStr string

datatype fields_arg = FieldsNone | FieldsList "string list" | FieldsStr string

definition fields_or_default :: "fields_arg \<Rightarrow> string list" where
  \<comment> \<open>\<open>fields or ["Id", "Name"]\<close>, as the sequence every later use iterates: a \<open>str\<close>
      yields its one-character strings\<close>
  "fields_or_default fields =
     (case fields of
        FieldsNone \<Rightarrow> [''Id'', ''Name'']
      | FieldsList fs \<Rightarrow> if fs = [] then [''Id'', ''Name''] else fs
      | FieldsStr s \<Rightarrow> if s = [] then [''Id'', ''Name''] else map (\<lambda>c. [c]) s)"

definition format_limit :: "limit_arg \<Rightarrow> string" where
  \<comment> \<open>\<open>{limit}\<close> in an f-string\<close>
  "format_limit limit =
     (case limit of LimitNone \<Rightarrow> ''None'' | LimitInt n \<Rightarrow> str_int n | LimitStr s \<Rightarrow> s)"

definition limit_clause :: "limit_arg \<Rightarrow> string" where
  "limit_clause limit =
     (if limit \<in> set [LimitStr ''All'', LimitStr ''all'', LimitNone] then []
      else ''LIMIT '' @ format_limit limit)"

definition find_clause :: "string \<Rightarrow> string" where
  \<comment> \<open>\<open>f"FIND {{{part}}}"\<close>\<close>
  "find_clause part = ''FIND {'' @ part @ ''}''"

definition keyword_conditions :: "string \<Rightarrow> string" where
  "keyword_conditions keyword =
     join '' OR '' (map find_clause (split_ws keyword)) @ '' OR '' @ find_clause keyword"

definition build_query :: "string \<Rightarrow> string \<Rightarrow> limit_arg \<Rightarrow> fields_arg \<Rightarrow> string" where
  \<comment> \<open>lines 79 to 87: the value of \<open>query\<close>\<close>
  "build_query object_name keyword limit fields =
     keyword_conditions keyword @ '' RETURNING '' @ object_name @ ''('' @
     join '', '' (fields_or_default fields) @ '' '' @ limit_clause limit @ '')''"

definition search_command :: "string \<Rightarrow> string \<Rightarrow> string" where
  "search_command query target_org =
     ''sfdx force:data:soql:query --query '' @ [CHR 0x22] @ query @ [CHR 0x22] @
     '' --target-org '' @ target_org @ '' --json''"

fun table_rows :: "json list \<Rightarrow> string list \<Rightarrow> py_error + json list list" where
  \<comment> \<open>\<open>[record.get(field, "N/A") for field in fields]\<close> for every record\<close>
  "table_rows [] fields = Inr []"
| "table_rows (record # rest) fields =
     (case (if fields = [] then Inr []
            else (case record of
                    JObj kvs \<Rightarrow> Inr (map (\<lambda>field. dict_get kvs field (JStr ''N/A'')) fields)
                  | _ \<Rightarrow> Inl AttributeError)) of
        Inl e \<Rightarrow> Inl e
      | Inr row \<Rightarrow> (case table_rows rest fields of Inl e \<Rightarrow> Inl e | Inr rows \<Rightarrow> Inr (row # rows)))"

definition search_body :: "json \<Rightarrow> string list \<Rightarrow> py_error + search_result" where
  \<comment> \<open>the \<open>try\<close> block after \<open>json.loads\<close>\<close>
  "search_body parsed fields =
     (case get_method parsed ''result'' (JObj []) of
        Inl e \<Rightarrow> Inl e
      | Inr result \<Rightarrow>
          (case get_method result ''records'' (JArr []) of
             Inl e \<Rightarrow> Inl e
           | Inr results \<Rightarrow>
               if truthy results then
                 (if \<not> distinct fields then Inl FieldNamesError
                  else (case py_iter results of
                          Inl e \<Rightarrow> Inl e
                        | Inr records \<Rightarrow>
                            (case table_rows records fields of
                               Inl e \<Rightarrow> Inl e
                             | Inr rows \<Rightarrow> Inr (Table fields rows))))
               else Inr (Text ''No records found.'')))"

definition SF_record_search ::
  "executor \<Rightarrow> loader \<Rightarrow> string \<Rightarrow> string \<Rightarrow> string option \<Rightarrow> limit_arg \<Rightarrow> fields_arg \<Rightarrow>
   world \<Rightarrow> (py_error + search_result) \<times> world" where
  "SF_record_search exec loads object_name target_org keyword limit fields w =
     (case keyword of
        None \<Rightarrow> (Inr (Text ''Error: Search keyword is required.''), w)
      | Some kw \<Rightarrow>
          if kw = [] then (Inr (Text ''Error: Search keyword is required.''), w)
          else
            (let query = build_query object_name kw limit fields;
                 (search_results, w1) =
                    run_command exec (search_command query target_org)
                      (w @ [LogInfo (''Executing query: '' @ query)])
             in if prefix ''Error:'' search_results then (Inr (Text search_results), w1)
                else
                  (case loads search_results of
                     None \<Rightarrow>
                       (Inr (Text ''Error: Unable to parse search results.''),
                        w1 @ [LogError ''Error parsing search results.''])
                   | Some parsed \<Rightarrow>
                       (case search_body parsed (fields_or_default fields) of
                          Inl e \<Rightarrow>
                            if e = JSONDecodeError \<or> e = KeyError
                            then (Inr (Text ''Error: Unable to parse search results.''),
                                  w1 @ [LogError ''Error parsing search results.''])
                            else (Inl e, w1)
                        | Inr r \<Rightarrow> (Inr r, w1)))))"

section \<open>The wizard: \<open>main\<close>\<close>

text \<open>
  \<open>session_state\<close> is a \<open>dict\<close> with at most the five keys below; a key that is absent
  is \<open>None\<close> here. The value stored under \<open>"fields"\<close> is a list or \<open>None\<close>, the one
  under \<open>"limit"\<close> an \<open>int\<close> or \<open>None\<close>.
\<close>

record session_state =
  ss_org_alias :: "string option"
  ss_object_name :: "string option"
  ss_fields :: "fields_arg option"
  ss_keyword :: "string option"
  ss_limit :: "limit_arg option"

definition cleared :: session_state where
  \<comment> \<open>the state after \<open>session_state.clear()\<close>, and the initial \<open>{}\<close>\<close>
  "cleared = \<lparr>ss_org_alias = None, ss_object_name = None, ss_fields = None,
              ss_keyword = None, ss_limit = None\<rparr>"

text \<open>
  What the user does at a prompt: a line of text, or an interrupt. At the end of the
  input \<open>input\<close> raises \<open>EOFError\<close>.
\<close>

datatype input_event = Line string | CtrlC

datatype read_result = Got string | Interrupted | EndOfInput

definition input_line ::
  "string \<Rightarrow> input_event list \<Rightarrow> world \<Rightarrow> read_result \<times> input_event list \<times> world" where
  \<comment> \<open>\<open>input(prompt)\<close>\<close>
  "input_line prompt ins w =
     (case ins of
        [] \<Rightarrow> (EndOfInput, [], w @ [Prompt prompt])
      | Line l # rest \<Rightarrow> (Got l, rest, w @ [Prompt prompt])
      | CtrlC # rest \<Rightarrow> (Interrupted, rest, w @ [Prompt prompt]))"

text \<open>
  How one pass through the body of \<open>while True\<close> ends: \<open>continue\<close>, \<open>break\<close>, or an
  exception that no handler of \<open>main\<close> catches.
\<close>

text \<open>
  In the step functions \<open>flds\<close> is the local variable \<open>fields\<close> of \<open>main\<close>.
\<close>

datatype control = Continue | Break | Raise py_error

type_synonym run_state = "control \<times> session_state \<times> input_event list \<times> world"

definition interrupted :: "session_state \<Rightarrow> input_event list \<Rightarrow> world \<Rightarrow> run_state" where
  \<comment> \<open>\<open>except KeyboardInterrupt\<close>\<close>
  "interrupted s ins w = (Break, s, ins, w @ [Print (CHR 0x0A # ''Exiting. Goodbye!'')])"

definition execute_search ::
  "executor \<Rightarrow> loader \<Rightarrow> session_state \<Rightarrow> string \<Rightarrow> string \<Rightarrow> fields_arg \<Rightarrow> string \<Rightarrow>
   limit_arg \<Rightarrow> input_event list \<Rightarrow> world \<Rightarrow> run_state" where
  \<comment> \<open>lines 169 to 172\<close>
  "execute_search exec loads s org_alias object_name flds keyword limit ins w =
     (case SF_record_search exec loads object_name org_alias (Some keyword) limit flds
             (w @ [Print (CHR 0x0A # ''Searching...'' @ [CHR 0x0A])]) of
        (Inl e, w1) \<Rightarrow> (Raise e, s, ins, w1)
      | (Inr result, w1) \<Rightarrow> (Break, s, ins, w1 @ [PrintResult result]))"

definition step_limit ::
  "executor \<Rightarrow> loader \<Rightarrow> session_state \<Rightarrow> string \<Rightarrow> string \<Rightarrow> fields_arg \<Rightarrow> string \<Rightarrow>
   input_event list \<Rightarrow> world \<Rightarrow> run_state" where
  \<comment> \<open>Step 5 and what follows it\<close>
  "step_limit exec loads s org_alias object_name flds keyword ins w =
     (case ss_limit s of
        Some limit \<Rightarrow> execute_search exec loads s org_alias object_name flds keyword limit ins w
      | None \<Rightarrow>
          (case input_line
                  (''Enter the number of records to return (or '' @ [CHR 0x27] @ ''All'' @
                   [CHR 0x27] @ '' for no limit): '') ins w of
             (EndOfInput, rest, w1) \<Rightarrow> (Raise EOFError, s, rest, w1)
           | (Interrupted, rest, w1) \<Rightarrow> interrupted s rest w1
           | (Got raw, rest, w1) \<Rightarrow>
               (let limit = strip raw in
                if lower limit = ''start over'' then (Continue, cleared, rest, w1)
                else if lower limit \<in> set [''all'', []]
                  then execute_search exec loads (s\<lparr>ss_limit := Some LimitNone\<rparr>)
                         org_alias object_name flds keyword (LimitStr limit) rest w1
                else
                  (case py_int limit of
                     None \<Rightarrow> (Raise ValueError, s, rest, w1)
                   | Some n \<Rightarrow>
                       execute_search exec loads (s\<lparr>ss_limit := Some (LimitInt n)\<rparr>)
                         org_alias object_name flds keyword (LimitStr limit) rest w1))))"

definition step_keyword ::
  "executor \<Rightarrow> loader \<Rightarrow> session_state \<Rightarrow> string \<Rightarrow> string \<Rightarrow> fields_arg \<Rightarrow>
   input_event list \<Rightarrow> world \<Rightarrow> run_state" where
  \<comment> \<open>Step 4 and what follows it\<close>
  "step_keyword exec loads s org_alias object_name flds ins w =
     (case ss_keyword s of
        Some keyword \<Rightarrow> step_limit exec loads s org_alias object_name flds keyword ins w
      | None \<Rightarrow>
          (case input_line ''Enter keyword to search: '' ins w of
             (EndOfInput, rest, w1) \<Rightarrow> (Raise EOFError, s, rest, w1)
           | (Interrupted, rest, w1) \<Rightarrow> interrupted s rest w1
           | (Got raw, rest, w1) \<Rightarrow>
               (let keyword = strip raw in
                if lower keyword = ''start over'' then (Continue, cleared, rest, w1)
                else step_limit exec loads (s\<lparr>ss_keyword := Some keyword\<rparr>)
                       org_alias object_name flds keyword rest w1)))"

definition step_fields ::
  "executor \<Rightarrow> loader \<Rightarrow> session_state \<Rightarrow> string \<Rightarrow> string \<Rightarrow>
   input_event list \<Rightarrow> world \<Rightarrow> run_state" where
  \<comment> \<open>Step 3 and what follows it\<close>
  "step_fields exec loads s org_alias object_name ins w =
     (case ss_fields s of
        Some flds \<Rightarrow> step_keyword exec loads s org_alias object_name flds ins w
      | None \<Rightarrow>
          (case input_line
                  (''Enter fields to query (comma-separated, or '' @ [CHR 0x27] @
                   ''all-required'' @ [CHR 0x27] @ ''): '') ins w of
             (EndOfInput, rest, w1) \<Rightarrow> (Raise EOFError, s, rest, w1)
           | (Interrupted, rest, w1) \<Rightarrow> interrupted s rest w1
           | (Got raw, rest, w1) \<Rightarrow>
               (let flds = strip raw in
                if lower flds = ''start over'' then (Continue, cleared, rest, w1)
                else step_keyword exec loads
                       (s\<lparr>ss_fields :=
                            Some (if lower flds \<noteq> ''all-required''
                                  then FieldsList (split_on CHR '','' flds)
                                  else FieldsNone)\<rparr>)
                       org_alias object_name (FieldsStr flds) rest w1)))"

definition step_object_name ::
  "executor \<Rightarrow> loader \<Rightarrow> session_state \<Rightarrow> string \<Rightarrow> input_event list \<Rightarrow> world \<Rightarrow> run_state" where
  \<comment> \<open>Step 2 and what follows it\<close>
  "step_object_name exec loads s org_alias ins w =
     (case ss_object_name s of
        Some object_name \<Rightarrow> step_fields exec loads s org_alias object_name ins w
      | None \<Rightarrow>
          (case input_line ''Enter the object name (or part of it) to search: '' ins w of
             (EndOfInput, rest, w1) \<Rightarrow> (Raise EOFError, s, rest, w1)
           | (Interrupted, rest, w1) \<Rightarrow> interrupted s rest w1
           | (Got raw, rest, w1) \<Rightarrow>
               (let object_name = strip raw in
                if lower object_name = ''start over'' then (Continue, cleared, rest, w1)
                else step_fields exec loads (s\<lparr>ss_object_name := Some object_name\<rparr>)
                       org_alias object_name rest w1)))"

definition step_authenticate ::
  "executor \<Rightarrow> loader \<Rightarrow> session_state \<Rightarrow> string \<Rightarrow> input_event list \<Rightarrow> world \<Rightarrow> run_state" where
  \<comment> \<open>lines 124 to 127 and what follows them\<close>
  "step_authenticate exec loads s org_alias ins w =
     (case authenticate_org exec loads org_alias w of
        (Inl e, w1) \<Rightarrow> (Raise e, s, ins, w1)
      | (Inr ok, w1) \<Rightarrow>
          if \<not> ok
          then (Continue, s\<lparr>ss_org_alias := None\<rparr>, ins,
                w1 @ [Print ''Error: Unable to authenticate. Try again.''])
          else step_object_name exec loads s org_alias ins w1)"

definition step_org_alias ::
  "executor \<Rightarrow> loader \<Rightarrow> session_state \<Rightarrow> input_event list \<Rightarrow> world \<Rightarrow> run_state" where
  \<comment> \<open>Step 1 and what follows it\<close>
  "step_org_alias exec loads s ins w =
     (case ss_org_alias s of
        Some org_alias \<Rightarrow> step_authenticate exec loads s org_alias ins w
      | None \<Rightarrow>
          (case input_line ''Enter Salesforce org alias (e.g., MyOrg): '' ins w of
             (EndOfInput, rest, w1) \<Rightarrow> (Raise EOFError, s, rest, w1)
           | (Interrupted, rest, w1) \<Rightarrow> interrupted s rest w1
           | (Got raw, rest, w1) \<Rightarrow>
               (let org_alias = strip raw in
                if lower org_alias = ''start over'' then (Continue, cleared, rest, w1)
                else step_authenticate exec loads (s\<lparr>ss_org_alias := Some org_alias\<rparr>)
                       org_alias rest w1)))"

definition iteration ::
  "executor \<Rightarrow> loader \<Rightarrow> session_state \<Rightarrow> input_event list \<Rightarrow> world \<Rightarrow> run_state" where
  \<comment> \<open>one pass through the body of \<open>while True\<close>\<close>
  "iteration exec loads s ins w =
     step_org_alias exec loads s ins (w @ [Print (CHR 0x0A # ''Welcome to SF Record Search!'')])"

function main_loop ::
  "executor \<Rightarrow> loader \<Rightarrow> session_state \<Rightarrow> input_event list \<Rightarrow> world \<Rightarrow> run_state" where
  \<comment> \<open>\<open>while True\<close>: the loop ends at a \<open>break\<close> or at an exception nothing catches\<close>
  "main_loop exec loads s ins w =
     (case iteration exec loads s ins w of
        (Continue, s', ins', w') \<Rightarrow> main_loop exec loads s' ins' w'
      | r \<Rightarrow> r)"
  by pat_completeness auto
termination
proof (relation "measures [\<lambda>(exec, loads, s, ins, w). length ins,
                           \<lambda>(exec, loads, s, ins, w). if ss_org_alias s = None then 0 else 1]")
  show "wf (measures [\<lambda>(exec, loads, s, ins, w). length ins,
                      \<lambda>(exec, loads, s, ins, w). if ss_org_alias s = None then 0 else (1::nat)])"
    by simp
next
  fix exec :: executor and loads :: loader and s ins w x1 x2 s' x2a ins' w'
  assume "(x1, x2) = iteration exec loads s ins w" "(s', x2a) = x2" "(ins', w') = x2a"
    "x1 = Continue"
  then have it: "iteration exec loads s ins w = (Continue, s', ins', w')"
    by simp
  have inp: "\<And>p ins w r rest w1. input_line p ins w = (r, rest, w1) \<Longrightarrow>
      (r = EndOfInput \<and> ins = [] \<and> rest = []) \<or> (\<exists>l. r = Got l \<and> ins = Line l # rest) \<or>
      (r = Interrupted \<and> ins = CtrlC # rest)"
    by (auto simp: input_line_def split: list.splits input_event.splits)
  have ex: "\<And>s a ob f k l ins w s' rest w'.
      execute_search exec loads s a ob f k l ins w \<noteq> (Continue, s', rest, w')"
    by (simp add: execute_search_def split: prod.splits sum.splits)
  have lim: "\<And>s a ob f k ins w s' rest w'.
      step_limit exec loads s a ob f k ins w = (Continue, s', rest, w') \<Longrightarrow>
      length rest < length ins"
    unfolding step_limit_def
    by (auto simp: ex interrupted_def Let_def
        split: option.splits prod.splits read_result.splits if_splits dest!: inp)
  have kw: "\<And>s a ob f ins w s' rest w'.
      step_keyword exec loads s a ob f ins w = (Continue, s', rest, w') \<Longrightarrow>
      length rest < length ins"
    unfolding step_keyword_def
    by (auto simp: interrupted_def Let_def
        split: option.splits prod.splits read_result.splits if_splits dest!: inp lim)
  have fl: "\<And>s a ob ins w s' rest w'.
      step_fields exec loads s a ob ins w = (Continue, s', rest, w') \<Longrightarrow>
      length rest < length ins"
    unfolding step_fields_def
    by (auto simp: interrupted_def Let_def
        split: option.splits prod.splits read_result.splits if_splits dest!: inp kw)
  have ob: "\<And>s a ins w s' rest w'.
      step_object_name exec loads s a ins w = (Continue, s', rest, w') \<Longrightarrow>
      length rest < length ins"
    unfolding step_object_name_def
    by (auto simp: interrupted_def Let_def
        split: option.splits prod.splits read_result.splits if_splits dest!: inp fl)
  have au: "\<And>s a ins w s' rest w'.
      step_authenticate exec loads s a ins w = (Continue, s', rest, w') \<Longrightarrow>
      length rest < length ins \<or> (rest = ins \<and> ss_org_alias s' = None)"
    unfolding step_authenticate_def
    by (auto split: prod.splits sum.splits if_splits dest!: ob)
  have "length ins' < length ins \<or>
        (ins' = ins \<and> ss_org_alias s \<noteq> None \<and> ss_org_alias s' = None)"
    using it unfolding iteration_def step_org_alias_def
    by (auto simp: interrupted_def Let_def
        split: option.splits prod.splits read_result.splits if_splits dest!: inp au)
  then show "((exec, loads, s', ins', w'), exec, loads, s, ins, w)
       \<in> measures [\<lambda>(exec, loads, s, ins, w). length ins,
                    \<lambda>(exec, loads, s, ins, w). if ss_org_alias s = None then 0 else 1]"
    by auto
qed

definition main :: "executor \<Rightarrow> loader \<Rightarrow> input_event list \<Rightarrow> run_state" where
  \<comment> \<open>\<open>main()\<close>: \<open>Break\<close> is a normal return, \<open>Raise e\<close> the exception \<open>main\<close> dies of\<close>
  "main exec loads ins = main_loop exec loads cleared ins []"

section \<open>Stand-ins for the environment\<close>

text \<open>
  An external tool that gives every command the same outcome, one that follows a script,
  and a \<open>json.loads\<close> that knows the texts of a table and rejects every other text.
\<close>

definition fixed_executor :: "proc_outcome \<Rightarrow> executor" where
  "fixed_executor outcome k command = outcome"

definition scripted_executor :: "proc_outcome list \<Rightarrow> executor" where
  \<comment> \<open>the \<open>k\<close>-th command gets the \<open>k\<close>-th outcome; later commands time out\<close>
  "scripted_executor outcomes k command =
     (if k < length outcomes then outcomes ! k else TimeoutExpired)"

definition table_loader :: "(string \<times> json) list \<Rightarrow> loader" where
  "table_loader tbl text = map_of tbl text"

section \<open>Helper facts about the environment\<close>

lemma run_command_cases:
  "run_command exec command w = (response, w1) \<Longrightarrow>
     (\<exists>out. exec (length (invoked w)) command = Completed out \<and> response = strip out \<and>
            w1 = w @ [Run command]) \<or>
     (prefix ''Error:'' response \<and> (\<exists>e. w1 = w @ [Run command, LogError e]))"
  by (auto simp: run_command_def split: proc_outcome.splits)

section \<open>The empty keyword\<close>

text \<open>
  C8. \<open>SF_record_search\<close> returns \<open>"Error: Search keyword is required."\<close> whenever the
  keyword is absent (\<open>None\<close>) or the empty string, whatever the other arguments are. The
  world it returns is the one it was given: no query was logged and no command was run.
\<close>

theorem empty_keyword_rejected:
  "SF_record_search exec loads object_name target_org None limit flds w =
     (Inr (Text ''Error: Search keyword is required.''), w) \<and>
   SF_record_search exec loads object_name target_org (Some []) limit flds w =
     (Inr (Text ''Error: Search keyword is required.''), w)"
  by (simp add: SF_record_search_def)

section \<open>The prefix \<open>Error:\<close>\<close>

text \<open>
  C10. A consumer of \<open>run_command\<close> looks only at whether the returned text starts
  with \<open>Error:\<close>. For every such text \<open>authenticate_org\<close> returns \<open>False\<close>,
  \<open>fetch_objects\<close> the empty list, \<open>describe_object\<close> two empty lists (after printing
  its message), and \<open>SF_record_search\<close> the text itself; the loader does not occur in
  any of the results, so nothing was parsed. A command that completes with exit status 0
  hands its stripped output to the consumer, so an output that begins with \<open>Error:\<close>
  is treated like a failure.
\<close>

theorem error_prefix_decides:
  "prefix ''Error:'' response \<Longrightarrow>
     (run_command exec ''sfdx force:auth:list --json'' w = (response, w1) \<longrightarrow>
        authenticate_org exec loads org_alias w = (Inr False, w1)) \<and>
     (run_command exec
        (''sfdx force:schema:sobject:list --target-org '' @ org_alias @ '' --json'') w =
        (response, w1) \<longrightarrow>
        fetch_objects exec loads org_alias w = (Inr (JArr []), w1)) \<and>
     (run_command exec
        (''sfdx sobject:describe -o '' @ org_alias @ '' -s '' @ object_name @ '' --json'') w =
        (response, w1) \<longrightarrow>
        describe_object exec loads org_alias object_name w =
          (Inr ([], []), w1 @ [Print ''Error: Unable to describe the object.''])) \<and>
     (kw \<noteq> [] \<and>
      run_command exec (search_command (build_query object_name kw limit flds) org_alias)
        (w @ [LogInfo (''Executing query: '' @ build_query object_name kw limit flds)]) =
        (response, w1) \<longrightarrow>
        SF_record_search exec loads object_name org_alias (Some kw) limit flds w =
          (Inr (Text response), w1)) \<and>
     (exec (length (invoked w)) command = Completed out \<longrightarrow>
        run_command exec command w = (strip out, w @ [Run command]))"
proof -
  assume p: "prefix ''Error:'' response"
  have a: "run_command exec ''sfdx force:auth:list --json'' w = (response, w1) \<longrightarrow>
        authenticate_org exec loads org_alias w = (Inr False, w1)"
    using p by (simp add: authenticate_org_def)
  have b: "run_command exec
        (''sfdx force:schema:sobject:list --target-org '' @ org_alias @ '' --json'') w =
        (response, w1) \<longrightarrow>
        fetch_objects exec loads org_alias w = (Inr (JArr []), w1)"
    using p by (simp add: fetch_objects_def)
  have c: "run_command exec
        (''sfdx sobject:describe -o '' @ org_alias @ '' -s '' @ object_name @ '' --json'') w =
        (response, w1) \<longrightarrow>
        describe_object exec loads org_alias object_name w =
          (Inr ([], []), w1 @ [Print ''Error: Unable to describe the object.''])"
    using p by (simp add: describe_object_def)
  have d: "kw \<noteq> [] \<and>
      run_command exec (search_command (build_query object_name kw limit flds) org_alias)
        (w @ [LogInfo (''Executing query: '' @ build_query object_name kw limit flds)]) =
        (response, w1) \<longrightarrow>
        SF_record_search exec loads object_name org_alias (Some kw) limit flds w =
          (Inr (Text response), w1)"
    using p by (simp add: SF_record_search_def Let_def)
  have e: "exec (length (invoked w)) command = Completed out \<longrightarrow>
        run_command exec command w = (strip out, w @ [Run command])"
    by (simp add: run_command_def)
  from a b c d e show ?thesis by blast
qed

text \<open>
  The tool exits with status 0 and prints \<open>Error: boom\<close>: authentication fails and the
  search returns the text as it is.
\<close>

theorem error_prefix_decides_witness:
  "prefix ''Error:'' ''Error: boom'' \<and>
   authenticate_org (fixed_executor (Completed ''Error: boom'')) (table_loader []) ''MyOrg'' [] =
     (Inr False, [Run ''sfdx force:auth:list --json'']) \<and>
   fetch_objects (fixed_executor (Completed ''Error: boom'')) (table_loader []) ''MyOrg'' [] =
     (Inr (JArr []), [Run ''sfdx force:schema:sobject:list --target-org MyOrg --json'']) \<and>
   describe_object (fixed_executor (Completed ''Error: boom'')) (table_loader [])
       ''MyOrg'' ''Account'' [] =
     (Inr ([], []),
      [Run ''sfdx sobject:describe -o MyOrg -s Account --json'',
       Print ''Error: Unable to describe the object.'']) \<and>
   fst (SF_record_search (fixed_executor (Completed ''Error: boom'')) (table_loader [])
       ''Account'' ''MyOrg'' (Some ''Acme'') (LimitInt 10) FieldsNone []) =
     Inr (Text ''Error: boom'')"
proof -
  have p: "prefix ''Error:'' ''Error: boom''"
    by simp
  have r: "\<And>command w. run_command (fixed_executor (Completed ''Error: boom'')) command w =
             (''Error: boom'', w @ [Run command])"
    by (simp add: run_command_def fixed_executor_def strip_def isspace_def)
  have k: "''Acme'' \<noteq> []"
    by simp
  note t = error_prefix_decides [OF p, where exec = "fixed_executor (Completed ''Error: boom'')"
      and loads = "table_loader []" and org_alias = "''MyOrg''" and object_name = "''Account''"
      and kw = "''Acme''" and limit = "LimitInt 10" and flds = FieldsNone and w = "[]"]
  from t have a: "authenticate_org (fixed_executor (Completed ''Error: boom'')) (table_loader [])
      ''MyOrg'' [] = (Inr False, [Run ''sfdx force:auth:list --json''])"
    using r [of "''sfdx force:auth:list --json''" "[]"] by simp
  from t have b: "fetch_objects (fixed_executor (Completed ''Error: boom'')) (table_loader [])
      ''MyOrg'' [] =
      (Inr (JArr []), [Run ''sfdx force:schema:sobject:list --target-org MyOrg --json''])"
    using r [of "''sfdx force:schema:sobject:list --target-org MyOrg --json''" "[]"] by simp
  from t have c: "describe_object (fixed_executor (Completed ''Error: boom'')) (table_loader [])
       ''MyOrg'' ''Account'' [] =
     (Inr ([], []),
      [Run ''sfdx sobject:describe -o MyOrg -s Account --json'',
       Print ''Error: Unable to describe the object.''])"
    using r [of "''sfdx sobject:describe -o MyOrg -s Account --json''" "[]"] by simp
  from t k have d: "fst (SF_record_search (fixed_executor (Completed ''Error: boom''))
       (table_loader []) ''Account'' ''MyOrg'' (Some ''Acme'') (LimitInt 10) FieldsNone []) =
     Inr (Text ''Error: boom'')"
    using r by simp
  from p a b c d show ?thesis by simp
qed

lemma invoked_append: "invoked (xs @ ys) = invoked xs @ invoked ys"
  by (induction xs rule: invoked.induct) simp_all


section \<open>Searches without records, responses that are not JSON\<close>




section \<open>Required fields\<close>

lemma describe_loop_records:
  "\<forall>kvs \<in> set recs. map_of kvs ''name'' \<noteq> None \<and> map_of kvs ''type'' \<noteq> None \<Longrightarrow>
   describe_loop (map JObj recs) table required_fields =
     Inr (table @ map (\<lambda>kvs. (dict_get kvs ''name'' JNull, dict_get kvs ''type'' JNull,
                               is_required kvs)) recs,
          required_fields @ map (\<lambda>kvs. dict_get kvs ''name'' JNull) (filter is_required recs))"
proof (induction recs arbitrary: table required_fields)
  case Nil
  then show ?case by simp
next
  case (Cons kvs recs)
  then obtain name ty where nt: "map_of kvs ''name'' = Some name" "map_of kvs ''type'' = Some ty"
    by auto
  from Cons.prems have rest: "\<forall>kvs \<in> set recs. map_of kvs ''name'' \<noteq> None \<and> map_of kvs ''type'' \<noteq> None"
    by simp
  show ?case
    using nt by (simp add: Cons.IH [OF rest] dict_get_def)
qed

lemma field_names_records:
  "\<forall>kvs \<in> set recs. map_of kvs ''name'' \<noteq> None \<Longrightarrow>
   field_names (map JObj recs) = Inr (map (\<lambda>kvs. dict_get kvs ''name'' JNull) recs)"
  by (induction recs) (auto simp: subscript_def dict_get_def)

lemma describe_loop_missing:
  "\<exists>kvs \<in> set recs. map_of kvs ''name'' = None \<or> map_of kvs ''type'' = None \<Longrightarrow>
   describe_loop (map JObj recs) table required_fields = Inl KeyError"
proof (induction recs arbitrary: table required_fields)
  case Nil
  then show ?case by simp
next
  case (Cons kvs recs)
  show ?case
  proof (cases "map_of kvs ''name'' = None \<or> map_of kvs ''type'' = None")
    case True
    then show ?thesis by (auto split: option.splits)
  next
    case False
    with Cons.prems
    have "\<exists>kvs \<in> set recs. map_of kvs ''name'' = None \<or> map_of kvs ''type'' = None"
      by auto
    from Cons.IH [OF this] False show ?thesis
      by (auto split: option.splits)
  qed
qed

text \<open>
  C7, as amended. The describe command's response does not begin with \<open>Error:\<close> and
  parses to an object whose \<open>result\<close> is an object whose \<open>fields\<close> is a list of
  objects, the field records. When every record has a \<open>name\<close> and a \<open>type\<close>,
  \<open>describe_object\<close> returns the names of all records and the names of the required
  records, both in the order of the response, and prints one table row per record. When
  a record lacks its \<open>name\<close> or its \<open>type\<close>, it logs the failure and returns two empty
  lists. A record is required exactly when it has a \<open>nillable\<close> value that Python
  takes for false and a \<open>createable\<close> value it takes for true: for boolean flags, when
  \<open>nillable\<close> is \<open>false\<close> and \<open>createable\<close> is \<open>true\<close>; a record that lacks one of
  the flags is not required.
\<close>

theorem describe_object_required:
  "run_command exec
     (''sfdx sobject:describe -o '' @ org_alias @ '' -s '' @ object_name @ '' --json'') w =
     (response, w1) \<Longrightarrow>
   \<not> prefix ''Error:'' response \<Longrightarrow>
   loads response = Some (JObj obj) \<Longrightarrow>
   map_of obj ''result'' = Some (JObj res) \<Longrightarrow>
   map_of res ''fields'' = Some (JArr (map JObj recs)) \<Longrightarrow>
     ((\<forall>kvs \<in> set recs. map_of kvs ''name'' \<noteq> None \<and> map_of kvs ''type'' \<noteq> None) \<longrightarrow>
      describe_object exec loads org_alias object_name w =
        (Inr (map (\<lambda>kvs. dict_get kvs ''name'' JNull) recs,
              map (\<lambda>kvs. dict_get kvs ''name'' JNull) (filter is_required recs)),
         w1 @ [Print (CHR 0x0A # ''Available Fields:''),
               PrintFields (map (\<lambda>kvs. (dict_get kvs ''name'' JNull, dict_get kvs ''type'' JNull,
                                          is_required kvs)) recs)])) \<and>
     ((\<exists>kvs \<in> set recs. map_of kvs ''name'' = None \<or> map_of kvs ''type'' = None) \<longrightarrow>
      describe_object exec loads org_alias object_name w =
        (Inr ([], []), w1 @ [LogError ''Error parsing describe results.''])) \<and>
     (\<forall>kvs. is_required kvs \<longleftrightarrow>
        (\<exists>n c. map_of kvs ''nillable'' = Some n \<and> \<not> truthy n \<and>
               map_of kvs ''createable'' = Some c \<and> truthy c)) \<and>
     (\<forall>kvs n c. map_of kvs ''nillable'' = Some (JBool n) \<and>
        map_of kvs ''createable'' = Some (JBool c) \<longrightarrow> is_required kvs = (\<not> n \<and> c)) \<and>
     (\<forall>kvs. map_of kvs ''nillable'' = None \<or> map_of kvs ''createable'' = None \<longrightarrow>
        \<not> is_required kvs)"
proof -
  assume rc: "run_command exec
     (''sfdx sobject:describe -o '' @ org_alias @ '' -s '' @ object_name @ '' --json'') w =
     (response, w1)"
    and np: "\<not> prefix ''Error:'' response"
    and ld: "loads response = Some (JObj obj)"
    and r: "map_of obj ''result'' = Some (JObj res)"
    and f: "map_of res ''fields'' = Some (JArr (map JObj recs))"
  have main: "describe_object exec loads org_alias object_name w =
       (Inr (map (\<lambda>kvs. dict_get kvs ''name'' JNull) recs,
             map (\<lambda>kvs. dict_get kvs ''name'' JNull) (filter is_required recs)),
        w1 @ [Print (CHR 0x0A # ''Available Fields:''),
              PrintFields (map (\<lambda>kvs. (dict_get kvs ''name'' JNull, dict_get kvs ''type'' JNull,
                                         is_required kvs)) recs)])"
    if nt: "\<forall>kvs \<in> set recs. map_of kvs ''name'' \<noteq> None \<and> map_of kvs ''type'' \<noteq> None"
  proof -
    from nt have n: "\<forall>kvs \<in> set recs. map_of kvs ''name'' \<noteq> None"
      by simp
    have "describe_body (JObj obj) =
        Inr (map (\<lambda>kvs. (dict_get kvs ''name'' JNull, dict_get kvs ''type'' JNull,
                          is_required kvs)) recs,
             map (\<lambda>kvs. dict_get kvs ''name'' JNull) recs,
             map (\<lambda>kvs. dict_get kvs ''name'' JNull) (filter is_required recs))"
      using r f
      by (simp add: describe_body_def subscript_def py_iter_def
          describe_loop_records [OF nt] field_names_records [OF n])
    with rc np ld show ?thesis
      by (simp add: describe_object_def)
  qed
  have lacking: "describe_object exec loads org_alias object_name w =
        (Inr ([], []), w1 @ [LogError ''Error parsing describe results.''])"
    if m: "\<exists>kvs \<in> set recs. map_of kvs ''name'' = None \<or> map_of kvs ''type'' = None"
  proof -
    have "describe_body (JObj obj) = Inl KeyError"
      using r f
      by (simp add: describe_body_def subscript_def py_iter_def describe_loop_missing [OF m])
    with rc np ld show ?thesis
      by (simp add: describe_object_def)
  qed
  have iff: "\<forall>kvs. is_required kvs \<longleftrightarrow>
        (\<exists>n c. map_of kvs ''nillable'' = Some n \<and> \<not> truthy n \<and>
               map_of kvs ''createable'' = Some c \<and> truthy c)"
    by (auto simp: is_required_def dict_get_def split: option.splits)
  have bools: "\<forall>kvs n c. map_of kvs ''nillable'' = Some (JBool n) \<and>
        map_of kvs ''createable'' = Some (JBool c) \<longrightarrow> is_required kvs = (\<not> n \<and> c)"
    by (simp add: is_required_def dict_get_def)
  have missing: "\<forall>kvs. map_of kvs ''nillable'' = None \<or> map_of kvs ''createable'' = None \<longrightarrow>
        \<not> is_required kvs"
    by (auto simp: is_required_def dict_get_def)
  from main lacking iff bools missing show ?thesis by blast
qed

text \<open>
  Four field records: \<open>Id\<close> cannot be created, \<open>Name\<close> is required, \<open>Phone\<close> is
  nillable, \<open>Fax\<close> carries no flags.
\<close>

theorem describe_object_required_witness:
  \<open>fst (describe_object (fixed_executor (Completed (''{"result": {"fields": ['' @
        ''{"name": "Id", "type": "id", "nillable": false, "createable": false}, '' @
        ''{"name": "Name", "type": "string", "nillable": false, "createable": true}, '' @
        ''{"name": "Phone", "type": "phone", "nillable": true, "createable": true}, '' @
        ''{"name": "Fax", "type": "phone"}]}}'')))
          (table_loader
             [((''{"result": {"fields": ['' @
                   ''{"name": "Id", "type": "id", "nillable": false, "createable": false}, '' @
                   ''{"name": "Name", "type": "string", "nillable": false, "createable": true}, '' @
                   ''{"name": "Phone", "type": "phone", "nillable": true, "createable": true}, '' @
                   ''{"name": "Fax", "type": "phone"}]}}''),
               JObj [(''result'', JObj [(''fields'', JArr (map JObj
                 [[(''name'', JStr ''Id''), (''type'', JStr ''id''),
                   (''nillable'', JBool False), (''createable'', JBool False)],
                  [(''name'', JStr ''Name''), (''type'', JStr ''string''),
                   (''nillable'', JBool False), (''createable'', JBool True)],
                  [(''name'', JStr ''Phone''), (''type'', JStr ''phone''),
                   (''nillable'', JBool True), (''createable'', JBool True)],
                  [(''name'', JStr ''Fax''), (''type'', JStr ''phone'')]]))])])])
          ''MyOrg'' ''Account'' []) =
     Inr ([JStr ''Id'', JStr ''Name'', JStr ''Phone'', JStr ''Fax''], [JStr ''Name''])\<close>
proof -
  let ?txt = \<open>''{"result": {"fields": ['' @
        ''{"name": "Id", "type": "id", "nillable": false, "createable": false}, '' @
        ''{"name": "Name", "type": "string", "nillable": false, "createable": true}, '' @
        ''{"name": "Phone", "type": "phone", "nillable": true, "createable": true}, '' @
        ''{"name": "Fax", "type": "phone"}]}}''\<close>
  let ?recs = "[[(''name'', JStr ''Id''), (''type'', JStr ''id''),
                   (''nillable'', JBool False), (''createable'', JBool False)],
                  [(''name'', JStr ''Name''), (''type'', JStr ''string''),
                   (''nillable'', JBool False), (''createable'', JBool True)],
                  [(''name'', JStr ''Phone''), (''type'', JStr ''phone''),
                   (''nillable'', JBool True), (''createable'', JBool True)],
                  [(''name'', JStr ''Fax''), (''type'', JStr ''phone'')]]"
  let ?res = "[(''fields'', JArr (map JObj ?recs))]"
  let ?obj = "[(''result'', JObj ?res)]"
  let ?exec = "fixed_executor (Completed ?txt)"
  let ?loads = "table_loader [(?txt, JObj ?obj)]"
  have rc: "run_command ?exec
     (''sfdx sobject:describe -o '' @ ''MyOrg'' @ '' -s '' @ ''Account'' @ '' --json'') [] =
     (?txt, [Run ''sfdx sobject:describe -o MyOrg -s Account --json''])"
    by (simp add: run_command_def fixed_executor_def strip_def isspace_def)
  have np: "\<not> prefix ''Error:'' ?txt"
    by simp
  have ld: "?loads ?txt = Some (JObj ?obj)"
    by (simp add: table_loader_def)
  have r: "map_of ?obj ''result'' = Some (JObj ?res)"
    by simp
  have f: "map_of ?res ''fields'' = Some (JArr (map JObj ?recs))"
    by simp
  have nt: "\<forall>kvs \<in> set ?recs. map_of kvs ''name'' \<noteq> None \<and> map_of kvs ''type'' \<noteq> None"
    by simp
  have req: "filter is_required ?recs =
      [[(''name'', JStr ''Name''), (''type'', JStr ''string''),
        (''nillable'', JBool False), (''createable'', JBool True)]]"
    by (simp add: is_required_def dict_get_def)
  from describe_object_required [where exec = ?exec and loads = ?loads, OF rc np ld r f] nt
  have "fst (describe_object ?exec ?loads ''MyOrg'' ''Account'' []) =
      Inr (map (\<lambda>kvs. dict_get kvs ''name'' JNull) ?recs,
           map (\<lambda>kvs. dict_get kvs ''name'' JNull) (filter is_required ?recs))"
    by simp
  then show ?thesis
    unfolding req by (simp add: dict_get_def)
qed

text \<open>
  C7, as the claim states it, fails for a flag that is not a boolean: the record
  \<open>Name\<close> has \<open>nillable\<close> \<open>null\<close>, which is not \<open>false\<close>, and \<open>createable\<close>
  \<open>true\<close>, and \<open>describe_object\<close> lists it among the required fields, since
  \<open>not None\<close> is true.
\<close>

theorem describe_object_required_counterexample:
  \<open>map_of [(''name'', JStr ''Name''), (''type'', JStr ''string''),
           (''nillable'', JNull), (''createable'', JBool True)] ''nillable'' = Some JNull \<and>
   describe_object
     (fixed_executor (Completed (''{"result": {"fields": [{"name": "Name", "type": "string", '' @
                                 ''"nillable": null, "createable": true}]}}'')))
     (table_loader
        [((''{"result": {"fields": [{"name": "Name", "type": "string", '' @
           ''"nillable": null, "createable": true}]}}''),
          JObj [(''result'', JObj [(''fields'', JArr [JObj
            [(''name'', JStr ''Name''), (''type'', JStr ''string''),
             (''nillable'', JNull), (''createable'', JBool True)]])])])])
     ''MyOrg'' ''Account'' [] =
     (Inr ([JStr ''Name''], [JStr ''Name'']),
      [Run ''sfdx sobject:describe -o MyOrg -s Account --json'',
       Print (CHR 0x0A # ''Available Fields:''),
       PrintFields [(JStr ''Name'', JStr ''string'', True)]])\<close>
  by (simp add: describe_object_def run_command_def fixed_executor_def table_loader_def
      strip_def isspace_def describe_body_def subscript_def py_iter_def is_required_def
      dict_get_def)

section \<open>Authentication\<close>

lemma get_method_not_object:
  "\<nexists>kvs. v = JObj kvs \<Longrightarrow> get_method v k d = Inl AttributeError"
  by (cases v) (simp_all add: get_method_def)

lemma any_alias_True_iff:
  "any_alias orgs org_alias = Inr True \<longleftrightarrow>
     (\<exists>before kvs after. orgs = before @ JObj kvs # after \<and>
        map_of kvs ''alias'' = Some (JStr org_alias) \<and> (\<forall>x \<in> set before. \<exists>k. x = JObj k))"
  (is "_ \<longleftrightarrow> ?found orgs")
proof (induction orgs)
  case Nil
  then show ?case by simp
next
  case (Cons org orgs)
  show ?case
  proof (cases "\<exists>kvs. org = JObj kvs")
    case False
    then have "any_alias (org # orgs) org_alias = Inl AttributeError"
      by (simp add: get_method_not_object)
    moreover have "\<not> ?found (org # orgs)"
      using False by (auto simp: Cons_eq_append_conv)
    ultimately show ?thesis by simp
  next
    case True
    then obtain kvs where org: "org = JObj kvs" ..
    show ?thesis
    proof (cases "map_of kvs ''alias'' = Some (JStr org_alias)")
      case True
      have "org # orgs = [] @ JObj kvs # orgs"
        using org by simp
      with True have "?found (org # orgs)"
        by (metis empty_iff list.set(1))
      then show ?thesis
        using org True by (simp add: get_method_def dict_get_def)
    next
      case False
      then have step: "any_alias (org # orgs) org_alias = any_alias orgs org_alias"
        using org by (auto simp: get_method_def dict_get_def split: option.splits)
      have "?found (org # orgs) \<longleftrightarrow> ?found orgs"
      proof
        assume "?found (org # orgs)"
        then obtain before kvs' after where d: "org # orgs = before @ JObj kvs' # after"
          and a: "map_of kvs' ''alias'' = Some (JStr org_alias)"
          and b: "\<forall>x \<in> set before. \<exists>k. x = JObj k"
          by blast
        from d a False org obtain before' where "before = org # before'"
          by (cases before) auto
        with d b a show "?found orgs"
          by auto
      next
        assume "?found orgs"
        then obtain before kvs' after where d: "orgs = before @ JObj kvs' # after"
          and a: "map_of kvs' ''alias'' = Some (JStr org_alias)"
          and b: "\<forall>x \<in> set before. \<exists>k. x = JObj k"
          by blast
        have "org # orgs = (org # before) @ JObj kvs' # after"
          using d by simp
        moreover have "\<forall>x \<in> set (org # before). \<exists>k. x = JObj k"
          using b org by simp
        ultimately show "?found (org # orgs)"
          using a by blast
      qed
      with step Cons.IH show ?thesis by simp
    qed
  qed
qed

lemma any_alias_strings: "any_alias (map (\<lambda>x. JStr (f x)) xs) org_alias \<noteq> Inr True"
  by (cases xs) (simp_all add: get_method_def)

lemma authenticate_parsed_True_iff:
  "(case get_method parsed ''result'' (JArr []) of
      Inl e \<Rightarrow> Inl e
    | Inr authenticated_orgs \<Rightarrow>
        (case py_iter authenticated_orgs of
           Inl e \<Rightarrow> Inl e
         | Inr orgs \<Rightarrow> any_alias orgs org_alias)) = Inr True \<longleftrightarrow>
   (\<exists>obj orgs. parsed = JObj obj \<and> map_of obj ''result'' = Some (JArr orgs) \<and>
      any_alias orgs org_alias = Inr True)"
proof (cases "\<exists>obj. parsed = JObj obj")
  case False
  then show ?thesis by (auto simp: get_method_not_object)
next
  case True
  then obtain obj where p: "parsed = JObj obj" ..
  show ?thesis
  proof (cases "map_of obj ''result''")
    case None
    then show ?thesis using p by (simp add: get_method_def dict_get_def py_iter_def)
  next
    case (Some r)
    then show ?thesis
      using p by (cases r) (simp_all add: get_method_def dict_get_def py_iter_def any_alias_strings)
  qed
qed

text \<open>
  C3, as amended. \<open>authenticate_org\<close> returns \<open>True\<close> exactly when the text
  \<open>run_command\<close> returns for the auth-list command does not begin with \<open>Error:\<close>, parses
  to an object whose \<open>result\<close> is a list, the list holds an object whose \<open>alias\<close> is the
  string \<open>org_alias\<close>, and every entry before that object is an object too. When the
  text begins with \<open>Error:\<close> (every timeout and non-zero exit) or \<open>json.loads\<close> rejects
  it, the function returns \<open>False\<close>.
\<close>

theorem authenticate_org_true_iff:
  "run_command exec ''sfdx force:auth:list --json'' w = (response, w1) \<Longrightarrow>
     (authenticate_org exec loads org_alias w = (Inr True, w1) \<longleftrightarrow>
        \<not> prefix ''Error:'' response \<and>
        (\<exists>obj before kvs after. loads response = Some (JObj obj) \<and>
           map_of obj ''result'' = Some (JArr (before @ JObj kvs # after)) \<and>
           map_of kvs ''alias'' = Some (JStr org_alias) \<and>
           (\<forall>x \<in> set before. \<exists>k. x = JObj k))) \<and>
     (prefix ''Error:'' response \<or> loads response = None \<longrightarrow>
        authenticate_org exec loads org_alias w = (Inr False, w1)) \<and>
     ((\<nexists>out. exec (length (invoked w)) ''sfdx force:auth:list --json'' = Completed out) \<longrightarrow>
        authenticate_org exec loads org_alias w = (Inr False, w1))"
proof -
  assume rc: "run_command exec ''sfdx force:auth:list --json'' w = (response, w1)"
  have fails: "prefix ''Error:'' response \<or> loads response = None \<longrightarrow>
        authenticate_org exec loads org_alias w = (Inr False, w1)"
    using rc by (auto simp: authenticate_org_def)
  have "(\<nexists>out. exec (length (invoked w)) ''sfdx force:auth:list --json'' = Completed out) \<longrightarrow>
        prefix ''Error:'' response"
    using run_command_cases [OF rc] by auto
  with fails have failure:
    "(\<nexists>out. exec (length (invoked w)) ''sfdx force:auth:list --json'' = Completed out) \<longrightarrow>
        authenticate_org exec loads org_alias w = (Inr False, w1)"
    by blast
  have iff: "authenticate_org exec loads org_alias w = (Inr True, w1) \<longleftrightarrow>
        \<not> prefix ''Error:'' response \<and>
        (\<exists>obj before kvs after. loads response = Some (JObj obj) \<and>
           map_of obj ''result'' = Some (JArr (before @ JObj kvs # after)) \<and>
           map_of kvs ''alias'' = Some (JStr org_alias) \<and>
           (\<forall>x \<in> set before. \<exists>k. x = JObj k))"
  proof (cases "prefix ''Error:'' response")
    case True
    then show ?thesis using rc by (simp add: authenticate_org_def)
  next
    case np: False
    show ?thesis
    proof (cases "loads response")
      case None
      then show ?thesis using rc np by (simp add: authenticate_org_def)
    next
      case (Some parsed)
      have "authenticate_org exec loads org_alias w = (Inr True, w1) \<longleftrightarrow>
          (case get_method parsed ''result'' (JArr []) of
             Inl e \<Rightarrow> Inl e
           | Inr authenticated_orgs \<Rightarrow>
               (case py_iter authenticated_orgs of
                  Inl e \<Rightarrow> Inl e
                | Inr orgs \<Rightarrow> any_alias orgs org_alias)) = Inr True"
        using rc np Some by (simp add: authenticate_org_def split: sum.splits)
      also have "\<dots> \<longleftrightarrow> (\<exists>obj orgs. parsed = JObj obj \<and>
          map_of obj ''result'' = Some (JArr orgs) \<and> any_alias orgs org_alias = Inr True)"
        by (rule authenticate_parsed_True_iff)
      also have "\<dots> \<longleftrightarrow> (\<exists>obj before kvs after. loads response = Some (JObj obj) \<and>
           map_of obj ''result'' = Some (JArr (before @ JObj kvs # after)) \<and>
           map_of kvs ''alias'' = Some (JStr org_alias) \<and>
           (\<forall>x \<in> set before. \<exists>k. x = JObj k))"
        unfolding any_alias_True_iff using Some by (simp; blast)
      finally show ?thesis using np by simp
    qed
  qed
  from iff fails failure show ?thesis by blast
qed

text \<open>
  The tool lists two orgs; the second one is \<open>MyOrg\<close>. A timeout gives \<open>False\<close>.
\<close>

theorem authenticate_org_true_iff_witness:
  \<open>authenticate_org
     (fixed_executor (Completed ''{"result": [{"alias": "Other"}, {"alias": "MyOrg"}]}''))
     (table_loader [(''{"result": [{"alias": "Other"}, {"alias": "MyOrg"}]}'',
        JObj [(''result'', JArr [JObj [(''alias'', JStr ''Other'')],
                                 JObj [(''alias'', JStr ''MyOrg'')]])])])
     ''MyOrg'' [] = (Inr True, [Run ''sfdx force:auth:list --json'']) \<and>
   authenticate_org (fixed_executor TimeoutExpired) (table_loader []) ''MyOrg'' [] =
     (Inr False,
      [Run ''sfdx force:auth:list --json'',
       LogError ''Command timed out: sfdx force:auth:list --json''])\<close>
proof -
  let ?txt = \<open>''{"result": [{"alias": "Other"}, {"alias": "MyOrg"}]}''\<close>
  let ?obj = "[(''result'', JArr ([JObj [(''alias'', JStr ''Other'')]] @
                  JObj [(''alias'', JStr ''MyOrg'')] # []))]"
  let ?exec = "fixed_executor (Completed ?txt)"
  let ?loads = "table_loader [(?txt, JObj ?obj)]"
  have rc: "run_command ?exec ''sfdx force:auth:list --json'' [] =
      (?txt, [Run ''sfdx force:auth:list --json''])"
    by (simp add: run_command_def fixed_executor_def strip_def isspace_def)
  have "\<not> prefix ''Error:'' ?txt \<and>
        (\<exists>obj before kvs after. ?loads ?txt = Some (JObj obj) \<and>
           map_of obj ''result'' = Some (JArr (before @ JObj kvs # after)) \<and>
           map_of kvs ''alias'' = Some (JStr ''MyOrg'') \<and>
           (\<forall>x \<in> set before. \<exists>k. x = JObj k))"
  proof (intro conjI exI)
    show "\<not> prefix ''Error:'' ?txt"
      by simp
    show "?loads ?txt = Some (JObj ?obj)"
      by (simp add: table_loader_def)
    show "map_of ?obj ''result'' =
        Some (JArr ([JObj [(''alias'', JStr ''Other'')]] @ JObj [(''alias'', JStr ''MyOrg'')] # []))"
      by simp
    show "map_of [(''alias'', JStr ''MyOrg'')] ''alias'' = Some (JStr ''MyOrg'')"
      by simp
    show "\<forall>x \<in> set [JObj [(''alias'', JStr ''Other'')]]. \<exists>k. x = JObj k"
      by simp
  qed
  with authenticate_org_true_iff [where exec = ?exec and loads = ?loads, OF rc]
  have a: "authenticate_org ?exec ?loads ''MyOrg'' [] =
      (Inr True, [Run ''sfdx force:auth:list --json''])"
    by blast
  have rc2: "run_command (fixed_executor TimeoutExpired) ''sfdx force:auth:list --json'' [] =
      (''Error: Command timed out.'',
       [Run ''sfdx force:auth:list --json'',
        LogError ''Command timed out: sfdx force:auth:list --json''])"
    by (simp add: run_command_def fixed_executor_def)
  have "prefix ''Error:'' ''Error: Command timed out.''"
    by simp
  with authenticate_org_true_iff [where exec = "fixed_executor TimeoutExpired"
      and loads = "table_loader []", OF rc2]
  have b: "authenticate_org (fixed_executor TimeoutExpired) (table_loader []) ''MyOrg'' [] =
     (Inr False,
      [Run ''sfdx force:auth:list --json'',
       LogError ''Command timed out: sfdx force:auth:list --json''])"
    by blast
  from a b show ?thesis by simp
qed

text \<open>
  C3, as the claim states it, fails when an entry that is not an object stands before
  the matching one: the command completes, its output parses, the \<open>result\<close> list holds
  an entry whose \<open>alias\<close> is \<open>MyOrg\<close>, and \<open>authenticate_org\<close> does not return
  \<open>True\<close>: \<open>org.get\<close> raises \<open>AttributeError\<close> at the number, which the handler for
  \<open>JSONDecodeError\<close> and \<open>KeyError\<close> does not catch.
\<close>

theorem authenticate_org_counterexample:
  \<open>fixed_executor (Completed ''{"result": [5, {"alias": "MyOrg"}]}'') 0
       ''sfdx force:auth:list --json'' = Completed ''{"result": [5, {"alias": "MyOrg"}]}'' \<and>
   table_loader [(''{"result": [5, {"alias": "MyOrg"}]}'',
        JObj [(''result'', JArr [JInt 5, JObj [(''alias'', JStr ''MyOrg'')]])])]
     (strip ''{"result": [5, {"alias": "MyOrg"}]}'') =
     Some (JObj [(''result'', JArr [JInt 5, JObj [(''alias'', JStr ''MyOrg'')]])]) \<and>
   JObj [(''alias'', JStr ''MyOrg'')] \<in> set [JInt 5, JObj [(''alias'', JStr ''MyOrg'')]] \<and>
   authenticate_org
     (fixed_executor (Completed ''{"result": [5, {"alias": "MyOrg"}]}''))
     (table_loader [(''{"result": [5, {"alias": "MyOrg"}]}'',
        JObj [(''result'', JArr [JInt 5, JObj [(''alias'', JStr ''MyOrg'')]])])])
     ''MyOrg'' [] = (Inl AttributeError, [Run ''sfdx force:auth:list --json''])\<close>
  by (simp add: authenticate_org_def run_command_def fixed_executor_def table_loader_def
      strip_def isspace_def get_method_def dict_get_def py_iter_def)

section \<open>The query\<close>

lemma join_snoc: "xs \<noteq> [] \<Longrightarrow> join sep (xs @ [y]) = join sep xs @ sep @ y"
  by (induction sep xs rule: join.induct) simp_all

lemma SF_record_search_world:
  "kw \<noteq> [] \<Longrightarrow>
   \<exists>evs. snd (SF_record_search exec loads object_name target_org (Some kw) limit flds w) =
     w @ LogInfo (''Executing query: '' @ build_query object_name kw limit flds) #
         Run (search_command (build_query object_name kw limit flds) target_org) # evs"
  by (auto simp: SF_record_search_def Let_def run_command_def
      split: proc_outcome.splits option.splits sum.splits)

text \<open>
  C1, as amended. When the keyword has at least one whitespace-separated part, the
  query is the \<open>N + 1\<close> clauses (one \<open>FIND {part}\<close> for each of the \<open>N\<close> parts, then
  \<open>FIND {keyword}\<close>) joined by \<open>" OR "\<close>, followed by \<open>" RETURNING "\<close>, the object name
  and, in parentheses, the fields joined by \<open>", "\<close> (the defaults \<open>Id\<close>, \<open>Name\<close> when
  none are given), a space and the limit clause. \<open>SF_record_search\<close> logs this query
  and runs the search command that carries it. The scenario of the specification gives
  the query it names. For a keyword made of whitespace only the conditions are
  \<open>" OR "\<close> followed by the single clause.
\<close>

theorem query_clauses:
  "(split_ws kw \<noteq> [] \<longrightarrow>
      build_query object_name kw limit flds =
        join '' OR '' (map find_clause (split_ws kw @ [kw])) @ '' RETURNING '' @ object_name @
        ''('' @ join '', '' (fields_or_default flds) @ '' '' @ limit_clause limit @ '')'') \<and>
   length (map find_clause (split_ws kw @ [kw])) = length (split_ws kw) + 1 \<and>
   (kw \<noteq> [] \<longrightarrow>
      (\<exists>evs. snd (SF_record_search exec loads object_name target_org (Some kw) limit flds w) =
         w @ LogInfo (''Executing query: '' @ build_query object_name kw limit flds) #
             Run (search_command (build_query object_name kw limit flds) target_org) # evs)) \<and>
   (split_ws kw = [] \<longrightarrow> keyword_conditions kw = '' OR '' @ find_clause kw) \<and>
   build_query ''Account'' ''Acme Corp'' (LimitInt 10) (FieldsList [''Id'', ''Name'']) =
     ''FIND {Acme} OR FIND {Corp} OR FIND {Acme Corp} RETURNING Account(Id, Name LIMIT 10)''"
proof -
  have a: "split_ws kw \<noteq> [] \<longrightarrow>
      build_query object_name kw limit flds =
        join '' OR '' (map find_clause (split_ws kw @ [kw])) @ '' RETURNING '' @ object_name @
        ''('' @ join '', '' (fields_or_default flds) @ '' '' @ limit_clause limit @ '')''"
    by (simp add: build_query_def keyword_conditions_def join_snoc)
  have b: "length (map find_clause (split_ws kw @ [kw])) = length (split_ws kw) + 1"
    by simp
  have c: "kw \<noteq> [] \<longrightarrow>
      (\<exists>evs. snd (SF_record_search exec loads object_name target_org (Some kw) limit flds w) =
         w @ LogInfo (''Executing query: '' @ build_query object_name kw limit flds) #
             Run (search_command (build_query object_name kw limit flds) target_org) # evs)"
    using SF_record_search_world by blast
  have d: "split_ws kw = [] \<longrightarrow> keyword_conditions kw = '' OR '' @ find_clause kw"
    by (simp add: keyword_conditions_def)
  have e: "build_query ''Account'' ''Acme Corp'' (LimitInt 10) (FieldsList [''Id'', ''Name'']) =
     ''FIND {Acme} OR FIND {Corp} OR FIND {Acme Corp} RETURNING Account(Id, Name LIMIT 10)''"
    by (simp add: build_query_def keyword_conditions_def split_ws_def isspace_def
        find_clause_def fields_or_default_def limit_clause_def format_limit_def str_int_def)
  from a b c d e show ?thesis by blast
qed

text \<open>
  The keyword \<open>Acme  Corp Ltd\<close> has three parts; the command runs into the timeout.
\<close>

theorem query_clauses_witness:
  "split_ws ''Acme  Corp Ltd'' = [''Acme'', ''Corp'', ''Ltd''] \<and>
   build_query ''Account'' ''Acme  Corp Ltd'' LimitNone FieldsNone =
     ''FIND {Acme} OR FIND {Corp} OR FIND {Ltd} OR FIND {Acme  Corp Ltd} RETURNING Account(Id, Name )'' \<and>
   take 2 (snd (SF_record_search (fixed_executor TimeoutExpired) (table_loader [])
                  ''Account'' ''MyOrg'' (Some ''Acme  Corp Ltd'') LimitNone FieldsNone [])) =
     [LogInfo (''Executing query: '' @
               build_query ''Account'' ''Acme  Corp Ltd'' LimitNone FieldsNone),
      Run (search_command (build_query ''Account'' ''Acme  Corp Ltd'' LimitNone FieldsNone)
             ''MyOrg'')]"
proof -
  have s: "split_ws ''Acme  Corp Ltd'' = [''Acme'', ''Corp'', ''Ltd'']"
    by (simp add: split_ws_def isspace_def)
  note t = query_clauses [where kw = "''Acme  Corp Ltd''" and object_name = "''Account''"
      and limit = LimitNone and flds = FieldsNone and exec = "fixed_executor TimeoutExpired"
      and loads = "table_loader []" and target_org = "''MyOrg''" and w = "[]"]
  from t s have q: "build_query ''Account'' ''Acme  Corp Ltd'' LimitNone FieldsNone =
     ''FIND {Acme} OR FIND {Corp} OR FIND {Ltd} OR FIND {Acme  Corp Ltd} RETURNING Account(Id, Name )''"
    by (simp add: find_clause_def fields_or_default_def limit_clause_def)
  from t have r: "take 2 (snd (SF_record_search (fixed_executor TimeoutExpired) (table_loader [])
                  ''Account'' ''MyOrg'' (Some ''Acme  Corp Ltd'') LimitNone FieldsNone [])) =
     [LogInfo (''Executing query: '' @
               build_query ''Account'' ''Acme  Corp Ltd'' LimitNone FieldsNone),
      Run (search_command (build_query ''Account'' ''Acme  Corp Ltd'' LimitNone FieldsNone)
             ''MyOrg'')]"
    by auto
  from s q r show ?thesis by blast
qed

text \<open>
  C1, as the claim states it, fails for a keyword that is not empty and has no part:
  for the keyword of one space the query begins with \<open>" OR "\<close>, so it is not the one
  clause \<open>FIND { }\<close> followed by the \<open>RETURNING\<close> part.
\<close>

theorem query_clauses_counterexample:
  "'' '' \<noteq> [] \<and> split_ws '' '' = [] \<and>
   build_query ''Account'' '' '' (LimitInt 10) (FieldsList [''Id'', ''Name'']) =
     '' OR FIND { } RETURNING Account(Id, Name LIMIT 10)'' \<and>
   join '' OR '' (map find_clause (split_ws '' '' @ ['' ''])) @
     '' RETURNING Account(Id, Name LIMIT 10)'' =
     ''FIND { } RETURNING Account(Id, Name LIMIT 10)'' \<and>
   build_query ''Account'' '' '' (LimitInt 10) (FieldsList [''Id'', ''Name'']) \<noteq>
     join '' OR '' (map find_clause (split_ws '' '' @ ['' ''])) @
     '' RETURNING Account(Id, Name LIMIT 10)''"
  by (simp add: build_query_def keyword_conditions_def split_ws_def isspace_def
      find_clause_def fields_or_default_def limit_clause_def format_limit_def str_int_def)

section \<open>The limit clause\<close>

lemma sublist_sep:
  assumes "c \<notin> set p"
  shows "sublist p (a @ c # b) \<longleftrightarrow> sublist p a \<or> sublist p b"
proof
  assume "sublist p (a @ c # b)"
  then obtain ps ss where eq: "a @ c # b = ps @ p @ ss"
    by (auto simp: sublist_def)
  then consider us where "a = ps @ us" "us @ c # b = p @ ss"
    | us where "a @ us = ps" "c # b = us @ p @ ss"
    by (auto simp: append_eq_append_conv2)
  then show "sublist p a \<or> sublist p b"
  proof cases
    case 1
    from 1(2) consider vs where "us = p @ vs" "vs @ c # b = ss"
      | vs where "us @ vs = p" "c # b = vs @ ss"
      by (auto simp: append_eq_append_conv2)
    then show ?thesis
    proof cases
      case 1
      with \<open>a = ps @ us\<close> show ?thesis by (auto simp: sublist_def)
    next
      case 2
      with assms have "vs = []"
        by (cases vs) auto
      with 2 \<open>a = ps @ us\<close> have "a = ps @ p @ []" by simp
      then show ?thesis unfolding sublist_def by blast
    qed
  next
    case 2
    show ?thesis
    proof (cases us)
      case Nil
      with 2 assms have "p = []"
        by (cases p) auto
      then show ?thesis by simp
    next
      case (Cons u us')
      with 2 have "b = us' @ p @ ss" by simp
      then show ?thesis by (auto simp: sublist_def)
    qed
  qed
next
  assume "sublist p a \<or> sublist p b"
  then show "sublist p (a @ c # b)"
  proof
    assume "sublist p a"
    then obtain ps ss where "a = ps @ p @ ss" by (auto simp: sublist_def)
    then have "a @ c # b = ps @ p @ (ss @ c # b)" by simp
    then show ?thesis unfolding sublist_def by blast
  next
    assume "sublist p b"
    then obtain ps ss where "b = ps @ p @ ss" by (auto simp: sublist_def)
    then have "a @ c # b = (a @ c # ps) @ p @ ss" by simp
    then show ?thesis unfolding sublist_def by blast
  qed
qed

lemma split_acc_sublist: "p \<in> set (split_acc cur s) \<Longrightarrow> sublist p (cur @ s)"
proof (induction cur s rule: split_acc.induct)
  case (1 cur)
  then show ?case by (auto split: if_splits)
next
  case (2 cur c cs)
  show ?case
  proof (cases "isspace c")
    case True
    with 2 have "p = cur \<or> p \<in> set (split_acc [] cs)"
      by (auto split: if_splits)
    then show ?thesis
    proof
      assume "p = cur"
      then show ?thesis by simp
    next
      assume "p \<in> set (split_acc [] cs)"
      with 2 True have "sublist p cs" by (auto split: if_splits)
      then obtain ps ss where "cs = ps @ p @ ss" by (auto simp: sublist_def)
      then have "cur @ c # cs = (cur @ c # ps) @ p @ ss" by simp
      then show ?thesis unfolding sublist_def by blast
    qed
  next
    case False
    with 2 show ?thesis by simp
  qed
qed

lemma no_limit_find_clause:
  assumes "\<not> sublist ''LIMIT'' part"
  shows "\<not> sublist ''LIMIT'' (find_clause part)"
proof -
  have 1: "sublist ''LIMIT'' (''FIND '' @ CHR ''{'' # (part @ CHR ''}'' # [])) \<longleftrightarrow>
        sublist ''LIMIT'' ''FIND '' \<or> sublist ''LIMIT'' (part @ CHR ''}'' # [])"
    by (rule sublist_sep) simp
  have 2: "sublist ''LIMIT'' (part @ CHR ''}'' # []) \<longleftrightarrow>
        sublist ''LIMIT'' part \<or> sublist ''LIMIT'' []"
    by (rule sublist_sep) simp
  have 3: "\<not> sublist ''LIMIT'' ''FIND ''"
    by (simp add: sublist_Cons_right)
  have 4: "\<not> sublist ''LIMIT'' []"
    by simp
  have eq: "find_clause part = ''FIND '' @ CHR ''{'' # (part @ CHR ''}'' # [])"
    by (simp add: find_clause_def)
  from 1 2 3 4 assms
  have "\<not> sublist ''LIMIT'' (''FIND '' @ CHR ''{'' # (part @ CHR ''}'' # []))"
    by blast
  then show ?thesis
    unfolding eq .
qed

lemma no_limit_sep_or:
  assumes "\<not> sublist ''LIMIT'' a" "\<not> sublist ''LIMIT'' b"
  shows "\<not> sublist ''LIMIT'' (a @ '' OR '' @ b)"
proof -
  have 1: "sublist ''LIMIT'' (a @ CHR '' '' # (''OR'' @ CHR '' '' # b)) \<longleftrightarrow>
        sublist ''LIMIT'' a \<or> sublist ''LIMIT'' (''OR'' @ CHR '' '' # b)"
    by (rule sublist_sep) simp
  have 2: "sublist ''LIMIT'' (''OR'' @ CHR '' '' # b) \<longleftrightarrow>
        sublist ''LIMIT'' ''OR'' \<or> sublist ''LIMIT'' b"
    by (rule sublist_sep) simp
  have 3: "\<not> sublist ''LIMIT'' ''OR''"
    by (simp add: sublist_Cons_right)
  have eq: "a @ '' OR '' @ b = a @ CHR '' '' # (''OR'' @ CHR '' '' # b)"
    by simp
  from 1 2 3 assms have "\<not> sublist ''LIMIT'' (a @ CHR '' '' # (''OR'' @ CHR '' '' # b))"
    by blast
  then show ?thesis
    unfolding eq .
qed

lemma no_limit_sep_comma:
  assumes "\<not> sublist ''LIMIT'' a" "\<not> sublist ''LIMIT'' b"
  shows "\<not> sublist ''LIMIT'' (a @ '', '' @ b)"
proof -
  have 1: "sublist ''LIMIT'' (a @ CHR '','' # ([] @ CHR '' '' # b)) \<longleftrightarrow>
        sublist ''LIMIT'' a \<or> sublist ''LIMIT'' ([] @ CHR '' '' # b)"
    by (rule sublist_sep) simp
  have 2: "sublist ''LIMIT'' ([] @ CHR '' '' # b) \<longleftrightarrow>
        sublist ''LIMIT'' [] \<or> sublist ''LIMIT'' b"
    by (rule sublist_sep) simp
  have 3: "\<not> sublist ''LIMIT'' []"
    by simp
  have eq: "a @ '', '' @ b = a @ CHR '','' # ([] @ CHR '' '' # b)"
    by simp
  from 1 2 3 assms have "\<not> sublist ''LIMIT'' (a @ CHR '','' # ([] @ CHR '' '' # b))"
    by blast
  then show ?thesis
    unfolding eq .
qed

lemma no_limit_join_or:
  "\<forall>x \<in> set xs. \<not> sublist ''LIMIT'' x \<Longrightarrow> \<not> sublist ''LIMIT'' (join '' OR '' xs)"
proof (induction "'' OR ''" xs rule: join.induct)
  case 1
  then show ?case by simp
next
  case (2 x)
  then show ?case by simp
next
  case (3 x y ys)
  then have "\<not> sublist ''LIMIT'' x" "\<not> sublist ''LIMIT'' (join '' OR '' (y # ys))"
    by simp_all
  then have "\<not> sublist ''LIMIT'' (x @ '' OR '' @ join '' OR '' (y # ys))"
    by (rule no_limit_sep_or)
  then show ?case by simp
qed

lemma no_limit_join_comma:
  "\<forall>x \<in> set xs. \<not> sublist ''LIMIT'' x \<Longrightarrow> \<not> sublist ''LIMIT'' (join '', '' xs)"
proof (induction "'', ''" xs rule: join.induct)
  case 1
  then show ?case by simp
next
  case (2 x)
  then show ?case by simp
next
  case (3 x y ys)
  then have "\<not> sublist ''LIMIT'' x" "\<not> sublist ''LIMIT'' (join '', '' (y # ys))"
    by simp_all
  then have "\<not> sublist ''LIMIT'' (x @ '', '' @ join '', '' (y # ys))"
    by (rule no_limit_sep_comma)
  then show ?case by simp
qed

lemma no_limit_keyword_conditions:
  assumes "\<not> sublist ''LIMIT'' kw"
  shows "\<not> sublist ''LIMIT'' (keyword_conditions kw)"
proof -
  have "\<forall>x \<in> set (map find_clause (split_ws kw)). \<not> sublist ''LIMIT'' x"
  proof
    fix x
    assume "x \<in> set (map find_clause (split_ws kw))"
    then obtain part where part: "part \<in> set (split_ws kw)" and x: "x = find_clause part"
      by auto
    from part have "sublist part kw"
      using split_acc_sublist [of part "[]" kw] by (simp add: split_ws_def)
    with assms have "\<not> sublist ''LIMIT'' part"
      using sublist_order.order.trans by blast
    then show "\<not> sublist ''LIMIT'' x"
      unfolding x by (rule no_limit_find_clause)
  qed
  then have "\<not> sublist ''LIMIT'' (join '' OR '' (map find_clause (split_ws kw)))"
    by (rule no_limit_join_or)
  moreover have "\<not> sublist ''LIMIT'' (find_clause kw)"
    using assms by (rule no_limit_find_clause)
  ultimately show ?thesis
    unfolding keyword_conditions_def by (rule no_limit_sep_or)
qed

lemma no_limit_unbounded_query:
  assumes "\<not> sublist ''LIMIT'' conds" "\<not> sublist ''LIMIT'' object_name"
    "\<not> sublist ''LIMIT'' joined"
  shows "\<not> sublist ''LIMIT'' (conds @ '' RETURNING '' @ object_name @ ''('' @ joined @ '' )'')"
proof -
  have 1: "sublist ''LIMIT''
             (conds @ CHR '' '' # (''RETURNING'' @ CHR '' '' #
                (object_name @ CHR ''('' # (joined @ CHR '' '' # '')'')))) \<longleftrightarrow>
           sublist ''LIMIT'' conds \<or>
           sublist ''LIMIT'' (''RETURNING'' @ CHR '' '' #
                (object_name @ CHR ''('' # (joined @ CHR '' '' # '')'')))"
    by (rule sublist_sep) simp
  have 2: "sublist ''LIMIT'' (''RETURNING'' @ CHR '' '' #
                (object_name @ CHR ''('' # (joined @ CHR '' '' # '')''))) \<longleftrightarrow>
           sublist ''LIMIT'' ''RETURNING'' \<or>
           sublist ''LIMIT'' (object_name @ CHR ''('' # (joined @ CHR '' '' # '')''))"
    by (rule sublist_sep) simp
  have 3: "sublist ''LIMIT'' (object_name @ CHR ''('' # (joined @ CHR '' '' # '')'')) \<longleftrightarrow>
           sublist ''LIMIT'' object_name \<or> sublist ''LIMIT'' (joined @ CHR '' '' # '')'')"
    by (rule sublist_sep) simp
  have 4: "sublist ''LIMIT'' (joined @ CHR '' '' # '')'') \<longleftrightarrow>
           sublist ''LIMIT'' joined \<or> sublist ''LIMIT'' '')''"
    by (rule sublist_sep) simp
  have 5: "\<not> sublist ''LIMIT'' ''RETURNING''" "\<not> sublist ''LIMIT'' '')''"
    by (simp_all add: sublist_Cons_right)
  have eq: "conds @ '' RETURNING '' @ object_name @ ''('' @ joined @ '' )'' =
            conds @ CHR '' '' # (''RETURNING'' @ CHR '' '' #
                (object_name @ CHR ''('' # (joined @ CHR '' '' # '')'')))"
    by simp
  from 1 2 3 4 5 assms
  have "\<not> sublist ''LIMIT''
             (conds @ CHR '' '' # (''RETURNING'' @ CHR '' '' #
                (object_name @ CHR ''('' # (joined @ CHR '' '' # '')''))))"
    by blast
  then show ?thesis
    unfolding eq .
qed

text \<open>
  C2, as amended. For the limits \<open>"All"\<close>, \<open>"all"\<close> and \<open>None\<close> the limit clause is
  empty: between the joined fields and the closing parenthesis the query has one space.
  The query then has no substring \<open>LIMIT\<close>, provided that the keyword, the object name
  and the field names have none. For an integer \<open>n\<close> the query ends with \<open>" LIMIT "\<close>,
  the decimal digits of \<open>n\<close> and the closing parenthesis, so it contains
  \<open>"LIMIT <n>"\<close>; the clause for 5 is \<open>"LIMIT 5"\<close>. \<open>SF_record_search\<close> logs and runs
  the query \<open>build_query\<close> gives.
\<close>

theorem limit_clause_in_query:
  "(limit \<in> set [LimitStr ''All'', LimitStr ''all'', LimitNone] \<longrightarrow>
      build_query object_name kw limit flds =
        keyword_conditions kw @ '' RETURNING '' @ object_name @ ''('' @
        join '', '' (fields_or_default flds) @ '' )'' \<and>
      (\<not> sublist ''LIMIT'' kw \<and> \<not> sublist ''LIMIT'' object_name \<and>
       (\<forall>f \<in> set (fields_or_default flds). \<not> sublist ''LIMIT'' f) \<longrightarrow>
         \<not> sublist ''LIMIT'' (build_query object_name kw limit flds))) \<and>
   build_query object_name kw (LimitInt n) flds =
     keyword_conditions kw @ '' RETURNING '' @ object_name @ ''('' @
     join '', '' (fields_or_default flds) @ '' LIMIT '' @ str_int n @ '')'' \<and>
   sublist (''LIMIT '' @ str_int n) (build_query object_name kw (LimitInt n) flds) \<and>
   limit_clause (LimitInt 5) = ''LIMIT 5'' \<and>
   (kw \<noteq> [] \<longrightarrow>
      (\<exists>evs. snd (SF_record_search exec loads object_name target_org (Some kw) limit flds w) =
         w @ LogInfo (''Executing query: '' @ build_query object_name kw limit flds) #
             Run (search_command (build_query object_name kw limit flds) target_org) # evs))"
proof -
  have a: "limit \<in> set [LimitStr ''All'', LimitStr ''all'', LimitNone] \<longrightarrow>
      build_query object_name kw limit flds =
        keyword_conditions kw @ '' RETURNING '' @ object_name @ ''('' @
        join '', '' (fields_or_default flds) @ '' )''"
    by (simp add: build_query_def limit_clause_def)
  have b: "\<not> sublist ''LIMIT''
              (keyword_conditions kw @ '' RETURNING '' @ object_name @ ''('' @
               join '', '' (fields_or_default flds) @ '' )'')"
    if "\<not> sublist ''LIMIT'' kw" "\<not> sublist ''LIMIT'' object_name"
      "\<forall>f \<in> set (fields_or_default flds). \<not> sublist ''LIMIT'' f"
    using that
    by (intro no_limit_unbounded_query no_limit_keyword_conditions no_limit_join_comma)
  have c: "build_query object_name kw (LimitInt n) flds =
     keyword_conditions kw @ '' RETURNING '' @ object_name @ ''('' @
     join '', '' (fields_or_default flds) @ '' LIMIT '' @ str_int n @ '')''"
    by (simp add: build_query_def limit_clause_def format_limit_def)
  have "build_query object_name kw (LimitInt n) flds =
     (keyword_conditions kw @ '' RETURNING '' @ object_name @ ''('' @
      join '', '' (fields_or_default flds) @ '' '') @ (''LIMIT '' @ str_int n) @ '')''"
    unfolding c by simp
  then have d: "sublist (''LIMIT '' @ str_int n) (build_query object_name kw (LimitInt n) flds)"
    unfolding sublist_def by blast
  have e: "limit_clause (LimitInt 5) = ''LIMIT 5''"
    by (simp add: limit_clause_def format_limit_def str_int_def)
  have f: "kw \<noteq> [] \<longrightarrow>
      (\<exists>evs. snd (SF_record_search exec loads object_name target_org (Some kw) limit flds w) =
         w @ LogInfo (''Executing query: '' @ build_query object_name kw limit flds) #
             Run (search_command (build_query object_name kw limit flds) target_org) # evs)"
    using SF_record_search_world by blast
  from a b c d e f show ?thesis by metis
qed

text \<open>
  The keyword \<open>Acme Corp\<close> without a limit, then with the limit 5.
\<close>

theorem limit_clause_in_query_witness:
  "build_query ''Account'' ''Acme Corp'' LimitNone (FieldsList [''Id'', ''Name'']) =
     ''FIND {Acme} OR FIND {Corp} OR FIND {Acme Corp} RETURNING Account(Id, Name )'' \<and>
   \<not> sublist ''LIMIT''
       (build_query ''Account'' ''Acme Corp'' LimitNone (FieldsList [''Id'', ''Name''])) \<and>
   build_query ''Account'' ''Acme Corp'' (LimitInt 5) (FieldsList [''Id'', ''Name'']) =
     ''FIND {Acme} OR FIND {Corp} OR FIND {Acme Corp} RETURNING Account(Id, Name LIMIT 5)''"
proof -
  note t = limit_clause_in_query [where limit = LimitNone and kw = "''Acme Corp''"
      and object_name = "''Account''" and flds = "FieldsList [''Id'', ''Name'']" and n = 5]
  have s: "LimitNone \<in> set [LimitStr ''All'', LimitStr ''all'', LimitNone]"
    by simp
  have k: "keyword_conditions ''Acme Corp'' = ''FIND {Acme} OR FIND {Corp} OR FIND {Acme Corp}''"
    by (simp add: keyword_conditions_def split_ws_def isspace_def find_clause_def)
  have n: "\<not> sublist ''LIMIT'' ''Acme Corp''" "\<not> sublist ''LIMIT'' ''Account''"
    "\<forall>f \<in> set (fields_or_default (FieldsList [''Id'', ''Name''])). \<not> sublist ''LIMIT'' f"
    by (simp_all add: fields_or_default_def sublist_Cons_right)
  from t s have a: "build_query ''Account'' ''Acme Corp'' LimitNone (FieldsList [''Id'', ''Name'']) =
     ''FIND {Acme} OR FIND {Corp} OR FIND {Acme Corp} RETURNING Account(Id, Name )''"
    by (simp add: k fields_or_default_def)
  from t s n have b: "\<not> sublist ''LIMIT''
       (build_query ''Account'' ''Acme Corp'' LimitNone (FieldsList [''Id'', ''Name'']))"
    by blast
  from t have c: "build_query ''Account'' ''Acme Corp'' (LimitInt 5) (FieldsList [''Id'', ''Name'']) =
     ''FIND {Acme} OR FIND {Corp} OR FIND {Acme Corp} RETURNING Account(Id, Name LIMIT 5)''"
    by (simp add: k fields_or_default_def str_int_def)
  from a b c show ?thesis by blast
qed

text \<open>
  C2, as the claim states it, fails when another argument brings the word: the keyword
  \<open>LIMIT\<close> with the limit \<open>None\<close> gives a query that contains \<open>LIMIT\<close>.
\<close>

theorem limit_clause_in_query_counterexample:
  "build_query ''Account'' ''LIMIT'' LimitNone FieldsNone =
     ''FIND {LIMIT} OR FIND {LIMIT} RETURNING Account(Id, Name )'' \<and>
   sublist ''LIMIT'' (build_query ''Account'' ''LIMIT'' LimitNone FieldsNone)"
  by (simp add: build_query_def keyword_conditions_def split_ws_def isspace_def
      find_clause_def fields_or_default_def limit_clause_def sublist_Cons_right)

section \<open>The wizard\<close>

lemma input_line_cases:
  "input_line p ins w = (r, rest, w1) \<Longrightarrow>
     w1 = w @ [Prompt p] \<and>
     ((r = EndOfInput \<and> ins = [] \<and> rest = []) \<or>
      (\<exists>l. r = Got l \<and> ins = Line l # rest) \<or>
      (r = Interrupted \<and> ins = CtrlC # rest))"
  by (auto simp: input_line_def split: list.splits input_event.splits)

lemma authenticate_org_invoked:
  "authenticate_org exec loads org_alias w = (r, w1) \<Longrightarrow>
     invoked w1 = invoked w @ [''sfdx force:auth:list --json'']"
  by (auto simp: authenticate_org_def run_command_def invoked_append
      split: proc_outcome.splits if_splits option.splits sum.splits)












lemma main_loop_Continue:
  "iteration exec loads s ins w = (Continue, s', rest, w') \<Longrightarrow>
     main_loop exec loads s ins w = main_loop exec loads s' rest w'"
  by (subst main_loop.simps) simp

lemma main_loop_stops:
  "iteration exec loads s ins w = (out, s', rest, w') \<Longrightarrow> out \<noteq> Continue \<Longrightarrow>
     main_loop exec loads s ins w = (out, s', rest, w')"
  by (subst main_loop.simps) (cases out; simp)

lemma run_command_extends: "prefix w (snd (run_command exec command w))"
  by (simp add: run_command_def split: proc_outcome.splits)

lemma authenticate_org_extends: "prefix w (snd (authenticate_org exec loads org_alias w))"
  using run_command_extends [of w exec "''sfdx force:auth:list --json''"]
  by (auto simp: authenticate_org_def split: prod.splits option.splits sum.splits)

lemma SF_record_search_extends:
  "prefix w (snd (SF_record_search exec loads object_name org_alias keyword limit flds w))"
proof (cases "keyword = None \<or> keyword = Some []")
  case True
  then show ?thesis by (auto simp: SF_record_search_def)
next
  case False
  then obtain kw where kw: "keyword = Some kw" "kw \<noteq> []"
    by auto
  from SF_record_search_world [OF kw(2)] show ?thesis
    unfolding kw(1) by (metis prefixI)
qed

lemma execute_search_extends:
  "prefix w (snd (snd (snd (execute_search exec loads s a ob f k l ins w))))"
  using SF_record_search_extends
    [of "w @ [Print (CHR 0x0A # ''Searching...'' @ [CHR 0x0A])]" exec loads ob a "Some k" l f]
  by (auto simp: execute_search_def split: prod.splits sum.splits dest: append_prefixD)

lemma step_limit_extends:
  "prefix w (snd (snd (snd (step_limit exec loads s a ob f k ins w))))"
  unfolding step_limit_def
  by (auto simp: interrupted_def Let_def
      split: option.splits prod.splits read_result.splits
      dest!: input_line_cases intro: execute_search_extends append_prefixD)

lemma step_keyword_extends:
  "prefix w (snd (snd (snd (step_keyword exec loads s a ob f ins w))))"
  unfolding step_keyword_def
  by (auto simp: interrupted_def Let_def
      split: option.splits prod.splits read_result.splits
      dest!: input_line_cases intro: step_limit_extends append_prefixD)

lemma step_fields_extends:
  "prefix w (snd (snd (snd (step_fields exec loads s a ob ins w))))"
  unfolding step_fields_def
  by (auto simp: interrupted_def Let_def
      split: option.splits prod.splits read_result.splits
      dest!: input_line_cases intro: step_keyword_extends append_prefixD)

lemma step_object_name_extends:
  "prefix w (snd (snd (snd (step_object_name exec loads s a ins w))))"
  unfolding step_object_name_def
  by (auto simp: interrupted_def Let_def
      split: option.splits prod.splits read_result.splits
      dest!: input_line_cases intro: step_fields_extends append_prefixD)

lemma step_authenticate_extends:
  "prefix w (snd (snd (snd (step_authenticate exec loads s a ins w))))"
proof -
  obtain r w1 where au: "authenticate_org exec loads a w = (r, w1)"
    by (cases "authenticate_org exec loads a w")
  with authenticate_org_extends [of w exec loads a] have p: "prefix w w1"
    by simp
  have "prefix w1 (snd (snd (snd (step_object_name exec loads s a ins w1))))"
    by (rule step_object_name_extends)
  with p have "prefix w (snd (snd (snd (step_object_name exec loads s a ins w1))))"
    by (rule prefix_order.trans)
  with p show ?thesis
    by (auto simp: step_authenticate_def au split: sum.splits)
qed

lemma iteration_first_prompt:
  assumes "ss_org_alias s = None"
  shows "\<exists>evs. snd (snd (snd (iteration exec loads s ins w))) =
     w @ Print (CHR 0x0A # ''Welcome to SF Record Search!'') #
         Prompt ''Enter Salesforce org alias (e.g., MyOrg): '' # evs"
proof -
  let ?w1 = "w @ [Print (CHR 0x0A # ''Welcome to SF Record Search!''),
                  Prompt ''Enter Salesforce org alias (e.g., MyOrg): '']"
  have "prefix ?w1 (snd (snd (snd (iteration exec loads s ins w))))"
    using assms unfolding iteration_def step_org_alias_def
    by (auto simp: interrupted_def Let_def input_line_def
        split: list.splits input_event.splits intro: step_authenticate_extends)
  then show ?thesis
    by (auto simp: prefix_def)
qed

lemma step_org_alias_extends:
  "prefix w (snd (snd (snd (step_org_alias exec loads s ins w))))"
  unfolding step_org_alias_def
  by (auto simp: interrupted_def Let_def
      split: option.splits prod.splits read_result.splits
      dest!: input_line_cases intro: step_authenticate_extends append_prefixD)

lemma iteration_extends:
  "prefix w (snd (snd (snd (iteration exec loads s ins w))))"
  unfolding iteration_def
  using step_org_alias_extends append_prefixD by blast

lemma main_loop_extends:
  "prefix w (snd (snd (snd (main_loop exec loads s ins w))))"
proof (induction exec loads s ins w rule: main_loop.induct)
  case (1 exec loads s ins w)
  obtain out s' rest w' where it: "iteration exec loads s ins w = (out, s', rest, w')"
    by (cases "iteration exec loads s ins w")
  from iteration_extends [of w exec loads s ins] it have p: "prefix w w'"
    by simp
  show ?case
  proof (cases "out = Continue")
    case True
    with it have "main_loop exec loads s ins w = main_loop exec loads s' rest w'"
      using main_loop_Continue by blast
    moreover have "prefix w' (snd (snd (snd (main_loop exec loads s' rest w'))))"
      using "1.IH" [of out "(s', rest, w')" s' "(rest, w')" rest w'] it True
      by (simp del: main_loop.simps)
    ultimately show ?thesis
      using p prefix_order.trans by (fastforce simp del: main_loop.simps)
  next
    case False
    with it have "main_loop exec loads s ins w = (out, s', rest, w')"
      using main_loop_stops by blast
    with p show ?thesis by (simp del: main_loop.simps)
  qed
qed

lemma main_loop_first_prompt:
  assumes "ss_org_alias s = None"
  shows "\<exists>evs. snd (snd (snd (main_loop exec loads s ins w))) =
     w @ Print (CHR 0x0A # ''Welcome to SF Record Search!'') #
         Prompt ''Enter Salesforce org alias (e.g., MyOrg): '' # evs"
proof -
  obtain out s' rest w' where it: "iteration exec loads s ins w = (out, s', rest, w')"
    by (cases "iteration exec loads s ins w")
  from iteration_first_prompt [OF assms, of exec loads ins w] it
  obtain evs where w': "w' = w @ Print (CHR 0x0A # ''Welcome to SF Record Search!'') #
         Prompt ''Enter Salesforce org alias (e.g., MyOrg): '' # evs"
    by auto
  have "prefix w' (snd (snd (snd (main_loop exec loads s ins w))))"
  proof (cases "out = Continue")
    case True
    with it have "main_loop exec loads s ins w = main_loop exec loads s' rest w'"
      using main_loop_Continue by blast
    then show ?thesis
      by (simp del: main_loop.simps add: main_loop_extends)
  next
    case False
    with it have "main_loop exec loads s ins w = (out, s', rest, w')"
      using main_loop_stops by blast
    then show ?thesis
      by (simp del: main_loop.simps)
  qed
  then obtain more where "snd (snd (snd (main_loop exec loads s ins w))) = w' @ more"
    by (auto simp: prefix_def)
  then show ?thesis
    unfolding w' by (simp del: main_loop.simps)
qed



lemmas wizard_eval =
  iteration_def step_org_alias_def step_authenticate_def step_object_name_def step_fields_def
  step_keyword_def step_limit_def execute_search_def input_line_def interrupted_def
  authenticate_org_def run_command_def fixed_executor_def table_loader_def
  get_method_def dict_get_def py_iter_def strip_def isspace_def lower_def lower_char_def
  upper_chars_def lower_chars_def Let_def cleared_def


text \<open>
  The same answer at each of the five prompts: the control, the state, the input left
  and the commands run so far.
\<close>

lemma start_over_at_every_prompt:
  \<open>(let exec = fixed_executor (Completed ''{"result": [{"alias": "MyOrg"}]}'');
        loads = table_loader [(''{"result": [{"alias": "MyOrg"}]}'',
                  JObj [(''result'', JArr [JObj [(''alias'', JStr ''MyOrg'')]])])]
    in map (\<lambda>ins. case iteration exec loads cleared ins [] of
                     (out, s', rest, w') \<Rightarrow> (out, s', rest, invoked w'))
         [[Line ''start over'', Line ''x''],
          [Line ''MyOrg'', Line ''START OVER'', Line ''x''],
          [Line ''MyOrg'', Line ''Account'', Line '' Start Over '', Line ''x''],
          [Line ''MyOrg'', Line ''Account'', Line ''Id,Name'', Line ''Start over'', Line ''x''],
          [Line ''MyOrg'', Line ''Account'', Line ''Id,Name'', Line ''Acme'',
           Line ''start OVER'', Line ''x'']] =
       [(Continue, cleared, [Line ''x''], []),
        (Continue, cleared, [Line ''x''], [''sfdx force:auth:list --json'']),
        (Continue, cleared, [Line ''x''], [''sfdx force:auth:list --json'']),
        (Continue, cleared, [Line ''x''], [''sfdx force:auth:list --json'']),
        (Continue, cleared, [Line ''x''], [''sfdx force:auth:list --json''])])\<close>
  by (simp add: wizard_eval)

lemma step_object_name_first_prompt:
  assumes "ss_object_name s = None"
  shows "\<exists>evs. snd (snd (snd (step_object_name exec loads s a ins w))) =
     w @ Prompt ''Enter the object name (or part of it) to search: '' # evs"
proof -
  have "prefix (w @ [Prompt ''Enter the object name (or part of it) to search: ''])
          (snd (snd (snd (step_object_name exec loads s a ins w))))"
    using assms unfolding step_object_name_def
    by (auto simp: interrupted_def Let_def input_line_def
        split: list.splits input_event.splits intro: step_fields_extends)
  then show ?thesis
    by (auto simp: prefix_def)
qed

text \<open>
  C5. When \<open>authenticate_org\<close> returns \<open>False\<close> for the alias the pass uses (the one
  just typed, or the one already in the state), the pass prints the error, removes the
  key \<open>org_alias\<close> and ends with \<open>continue\<close>: the other four keys keep their values, no
  input beyond the alias was read, and the loop goes on with that state: what
  \<open>main_loop\<close> does next, after the error message, is to print the welcome line and to
  show the org-alias prompt. When \<open>authenticate_org\<close> returns \<open>True\<close>, the pass
  goes on with the object-name step, which shows its prompt next when the state has no
  object name.
\<close>

theorem auth_failure_removes_only_org_alias:
  "(ss_org_alias s = None \<and> ins = Line raw # rest \<and> lower (strip raw) \<noteq> ''start over'' \<and>
      authenticate_org exec loads (strip raw)
        (w @ [Print (CHR 0x0A # ''Welcome to SF Record Search!''),
              Prompt ''Enter Salesforce org alias (e.g., MyOrg): '']) = (Inr False, w1) \<longrightarrow>
      iteration exec loads s ins w =
        (Continue, s\<lparr>ss_org_alias := None\<rparr>, rest,
         w1 @ [Print ''Error: Unable to authenticate. Try again.'']) \<and>
      main_loop exec loads s ins w =
        main_loop exec loads (s\<lparr>ss_org_alias := None\<rparr>) rest
          (w1 @ [Print ''Error: Unable to authenticate. Try again.'']) \<and>
      (\<exists>evs. snd (snd (snd (main_loop exec loads s ins w))) =
         w1 @ Print ''Error: Unable to authenticate. Try again.'' #
              Print (CHR 0x0A # ''Welcome to SF Record Search!'') #
              Prompt ''Enter Salesforce org alias (e.g., MyOrg): '' # evs)) \<and>
   (ss_org_alias s = Some a \<and>
      authenticate_org exec loads a
        (w @ [Print (CHR 0x0A # ''Welcome to SF Record Search!'')]) = (Inr False, w1) \<longrightarrow>
      iteration exec loads s ins w =
        (Continue, s\<lparr>ss_org_alias := None\<rparr>, ins,
         w1 @ [Print ''Error: Unable to authenticate. Try again.'']) \<and>
      main_loop exec loads s ins w =
        main_loop exec loads (s\<lparr>ss_org_alias := None\<rparr>) ins
          (w1 @ [Print ''Error: Unable to authenticate. Try again.'']) \<and>
      (\<exists>evs. snd (snd (snd (main_loop exec loads s ins w))) =
         w1 @ Print ''Error: Unable to authenticate. Try again.'' #
              Print (CHR 0x0A # ''Welcome to SF Record Search!'') #
              Prompt ''Enter Salesforce org alias (e.g., MyOrg): '' # evs)) \<and>
   ss_org_alias (s\<lparr>ss_org_alias := None\<rparr>) = None \<and>
   ss_object_name (s\<lparr>ss_org_alias := None\<rparr>) = ss_object_name s \<and>
   ss_fields (s\<lparr>ss_org_alias := None\<rparr>) = ss_fields s \<and>
   ss_keyword (s\<lparr>ss_org_alias := None\<rparr>) = ss_keyword s \<and>
   ss_limit (s\<lparr>ss_org_alias := None\<rparr>) = ss_limit s \<and>
   (\<exists>evs. snd (snd (snd (iteration exec loads (s\<lparr>ss_org_alias := None\<rparr>) ins2 w2))) =
      w2 @ Print (CHR 0x0A # ''Welcome to SF Record Search!'') #
           Prompt ''Enter Salesforce org alias (e.g., MyOrg): '' # evs) \<and>
   (ss_org_alias s = None \<and> ins = Line raw # rest \<and> lower (strip raw) \<noteq> ''start over'' \<and>
      authenticate_org exec loads (strip raw)
        (w @ [Print (CHR 0x0A # ''Welcome to SF Record Search!''),
              Prompt ''Enter Salesforce org alias (e.g., MyOrg): '']) = (Inr True, w1) \<longrightarrow>
      iteration exec loads s ins w =
        step_object_name exec loads (s\<lparr>ss_org_alias := Some (strip raw)\<rparr>) (strip raw) rest w1) \<and>
   (ss_org_alias s = Some a \<and>
      authenticate_org exec loads a
        (w @ [Print (CHR 0x0A # ''Welcome to SF Record Search!'')]) = (Inr True, w1) \<longrightarrow>
      iteration exec loads s ins w = step_object_name exec loads s a ins w1) \<and>
   (ss_object_name s = None \<longrightarrow>
      (\<exists>evs. snd (snd (snd (step_object_name exec loads s a ins w1))) =
         w1 @ Prompt ''Enter the object name (or part of it) to search: '' # evs) \<and>
      (\<exists>evs. snd (snd (snd (step_object_name exec loads
                               (s\<lparr>ss_org_alias := Some (strip raw)\<rparr>) (strip raw) rest w1))) =
         w1 @ Prompt ''Enter the object name (or part of it) to search: '' # evs))"
proof -
  let ?err = "Print ''Error: Unable to authenticate. Try again.''"
  have again: "\<exists>evs. snd (snd (snd (main_loop exec loads s ins w))) =
         w1 @ Print ''Error: Unable to authenticate. Try again.'' #
              Print (CHR 0x0A # ''Welcome to SF Record Search!'') #
              Prompt ''Enter Salesforce org alias (e.g., MyOrg): '' # evs"
    if ml: "main_loop exec loads s ins w =
        main_loop exec loads (s\<lparr>ss_org_alias := None\<rparr>) rest0 (w1 @ [?err])" for rest0
  proof -
    have "\<exists>evs. snd (snd (snd (main_loop exec loads (s\<lparr>ss_org_alias := None\<rparr>) rest0
                                    (w1 @ [?err])))) =
         (w1 @ [?err]) @ Print (CHR 0x0A # ''Welcome to SF Record Search!'') #
              Prompt ''Enter Salesforce org alias (e.g., MyOrg): '' # evs"
      by (rule main_loop_first_prompt) simp
    then show ?thesis
      unfolding ml by (simp del: main_loop.simps)
  qed
  have typed: "iteration exec loads s ins w =
        (Continue, s\<lparr>ss_org_alias := None\<rparr>, rest, w1 @ [?err]) \<and>
      main_loop exec loads s ins w =
        main_loop exec loads (s\<lparr>ss_org_alias := None\<rparr>) rest (w1 @ [?err]) \<and>
      (\<exists>evs. snd (snd (snd (main_loop exec loads s ins w))) =
         w1 @ Print ''Error: Unable to authenticate. Try again.'' #
              Print (CHR 0x0A # ''Welcome to SF Record Search!'') #
              Prompt ''Enter Salesforce org alias (e.g., MyOrg): '' # evs)"
    if "ss_org_alias s = None" "ins = Line raw # rest" "lower (strip raw) \<noteq> ''start over''"
      "authenticate_org exec loads (strip raw)
        (w @ [Print (CHR 0x0A # ''Welcome to SF Record Search!''),
              Prompt ''Enter Salesforce org alias (e.g., MyOrg): '']) = (Inr False, w1)"
  proof -
    from that have it: "iteration exec loads s ins w =
        (Continue, s\<lparr>ss_org_alias := None\<rparr>, rest, w1 @ [?err])"
      by (simp add: iteration_def step_org_alias_def input_line_def step_authenticate_def Let_def)
    then have ml: "main_loop exec loads s ins w =
        main_loop exec loads (s\<lparr>ss_org_alias := None\<rparr>) rest (w1 @ [?err])"
      by (rule main_loop_Continue)
    from it ml again [OF ml] show ?thesis
      by blast
  qed
  have stored: "iteration exec loads s ins w =
        (Continue, s\<lparr>ss_org_alias := None\<rparr>, ins, w1 @ [?err]) \<and>
      main_loop exec loads s ins w =
        main_loop exec loads (s\<lparr>ss_org_alias := None\<rparr>) ins (w1 @ [?err]) \<and>
      (\<exists>evs. snd (snd (snd (main_loop exec loads s ins w))) =
         w1 @ Print ''Error: Unable to authenticate. Try again.'' #
              Print (CHR 0x0A # ''Welcome to SF Record Search!'') #
              Prompt ''Enter Salesforce org alias (e.g., MyOrg): '' # evs)"
    if "ss_org_alias s = Some a"
      "authenticate_org exec loads a
        (w @ [Print (CHR 0x0A # ''Welcome to SF Record Search!'')]) = (Inr False, w1)"
  proof -
    from that have it: "iteration exec loads s ins w =
        (Continue, s\<lparr>ss_org_alias := None\<rparr>, ins, w1 @ [?err])"
      by (simp add: iteration_def step_org_alias_def step_authenticate_def)
    then have ml: "main_loop exec loads s ins w =
        main_loop exec loads (s\<lparr>ss_org_alias := None\<rparr>) ins (w1 @ [?err])"
      by (rule main_loop_Continue)
    from it ml again [OF ml] show ?thesis
      by blast
  qed
  have next_pass: "\<exists>evs. snd (snd (snd (iteration exec loads (s\<lparr>ss_org_alias := None\<rparr>) ins2 w2))) =
      w2 @ Print (CHR 0x0A # ''Welcome to SF Record Search!'') #
           Prompt ''Enter Salesforce org alias (e.g., MyOrg): '' # evs"
    by (rule iteration_first_prompt) simp
  have ok_typed: "iteration exec loads s ins w =
        step_object_name exec loads (s\<lparr>ss_org_alias := Some (strip raw)\<rparr>) (strip raw) rest w1"
    if "ss_org_alias s = None" "ins = Line raw # rest" "lower (strip raw) \<noteq> ''start over''"
      "authenticate_org exec loads (strip raw)
        (w @ [Print (CHR 0x0A # ''Welcome to SF Record Search!''),
              Prompt ''Enter Salesforce org alias (e.g., MyOrg): '']) = (Inr True, w1)"
    using that
    by (simp add: iteration_def step_org_alias_def input_line_def step_authenticate_def Let_def)
  have ok_stored: "iteration exec loads s ins w = step_object_name exec loads s a ins w1"
    if "ss_org_alias s = Some a"
      "authenticate_org exec loads a
        (w @ [Print (CHR 0x0A # ''Welcome to SF Record Search!'')]) = (Inr True, w1)"
    using that by (simp add: iteration_def step_org_alias_def step_authenticate_def)
  have prompt: "(\<exists>evs. snd (snd (snd (step_object_name exec loads s a ins w1))) =
         w1 @ Prompt ''Enter the object name (or part of it) to search: '' # evs) \<and>
      (\<exists>evs. snd (snd (snd (step_object_name exec loads
                               (s\<lparr>ss_org_alias := Some (strip raw)\<rparr>) (strip raw) rest w1))) =
         w1 @ Prompt ''Enter the object name (or part of it) to search: '' # evs)"
    if "ss_object_name s = None"
    using that by (simp add: step_object_name_first_prompt)
  have frame: "ss_org_alias (s\<lparr>ss_org_alias := None\<rparr>) = None \<and>
      ss_object_name (s\<lparr>ss_org_alias := None\<rparr>) = ss_object_name s \<and>
      ss_fields (s\<lparr>ss_org_alias := None\<rparr>) = ss_fields s \<and>
      ss_keyword (s\<lparr>ss_org_alias := None\<rparr>) = ss_keyword s \<and>
      ss_limit (s\<lparr>ss_org_alias := None\<rparr>) = ss_limit s"
    by simp
  from typed stored frame next_pass ok_typed ok_stored prompt show ?thesis
    by blast
qed

text \<open>
  The tool lists the org \<open>Other\<close> only. A state that already holds an object name and
  a keyword keeps both when the alias \<open>MyOrg\<close> fails; \<open>Other\<close> is accepted, and the
  object-name prompt of a state without object name follows.
\<close>

theorem auth_failure_removes_only_org_alias_witness:
  \<open>iteration (fixed_executor (Completed ''{"result": [{"alias": "Other"}]}''))
     (table_loader [(''{"result": [{"alias": "Other"}]}'',
        JObj [(''result'', JArr [JObj [(''alias'', JStr ''Other'')]])])])
     (cleared\<lparr>ss_object_name := Some ''Account'', ss_keyword := Some ''Acme''\<rparr>)
     [Line ''MyOrg'', Line ''Other''] [] =
     (Continue, cleared\<lparr>ss_object_name := Some ''Account'', ss_keyword := Some ''Acme''\<rparr>,
      [Line ''Other''],
      [Print (CHR 0x0A # ''Welcome to SF Record Search!''),
       Prompt ''Enter Salesforce org alias (e.g., MyOrg): '',
       Run ''sfdx force:auth:list --json'',
       Print ''Error: Unable to authenticate. Try again.'']) \<and>
   iteration (fixed_executor (Completed ''{"result": [{"alias": "Other"}]}''))
     (table_loader [(''{"result": [{"alias": "Other"}]}'',
        JObj [(''result'', JArr [JObj [(''alias'', JStr ''Other'')]])])])
     cleared [Line ''Other''] [] =
     (Raise EOFError, cleared\<lparr>ss_org_alias := Some ''Other''\<rparr>, [],
      [Print (CHR 0x0A # ''Welcome to SF Record Search!''),
       Prompt ''Enter Salesforce org alias (e.g., MyOrg): '',
       Run ''sfdx force:auth:list --json'',
       Prompt ''Enter the object name (or part of it) to search: '']) \<and>
   take 6 (snd (snd (snd
     (main_loop (fixed_executor (Completed ''{"result": [{"alias": "Other"}]}''))
        (table_loader [(''{"result": [{"alias": "Other"}]}'',
           JObj [(''result'', JArr [JObj [(''alias'', JStr ''Other'')]])])])
        (cleared\<lparr>ss_object_name := Some ''Account'', ss_keyword := Some ''Acme''\<rparr>)
        [Line ''MyOrg'', Line ''Other''] [])))) =
     [Print (CHR 0x0A # ''Welcome to SF Record Search!''),
      Prompt ''Enter Salesforce org alias (e.g., MyOrg): '',
      Run ''sfdx force:auth:list --json'',
      Print ''Error: Unable to authenticate. Try again.'',
      Print (CHR 0x0A # ''Welcome to SF Record Search!''),
      Prompt ''Enter Salesforce org alias (e.g., MyOrg): '']\<close>
proof -
  let ?txt = \<open>''{"result": [{"alias": "Other"}]}''\<close>
  let ?exec = "fixed_executor (Completed ?txt)"
  let ?loads = "table_loader [(?txt, JObj [(''result'', JArr [JObj [(''alias'', JStr ''Other'')]])])]"
  let ?s = "cleared\<lparr>ss_object_name := Some ''Account'', ss_keyword := Some ''Acme''\<rparr>"
  let ?w0 = "[Print (CHR 0x0A # ''Welcome to SF Record Search!''),
              Prompt ''Enter Salesforce org alias (e.g., MyOrg): '']"
  let ?w1 = "?w0 @ [Run ''sfdx force:auth:list --json'']"
  have s: "strip ''MyOrg'' = ''MyOrg''" "strip ''Other'' = ''Other''"
    "lower ''MyOrg'' \<noteq> ''start over''" "lower ''Other'' \<noteq> ''start over''"
    by (simp_all add: strip_def isspace_def lower_def lower_char_def upper_chars_def
        lower_chars_def)
  have no: "authenticate_org ?exec ?loads ''MyOrg'' ([] @ ?w0) = (Inr False, ?w1)"
    by (simp add: authenticate_org_def run_command_def fixed_executor_def table_loader_def
        get_method_def dict_get_def py_iter_def strip_def isspace_def)
  have yes: "authenticate_org ?exec ?loads ''Other'' ([] @ ?w0) = (Inr True, ?w1)"
    by (simp add: authenticate_org_def run_command_def fixed_executor_def table_loader_def
        get_method_def dict_get_def py_iter_def strip_def isspace_def)
  note t = auth_failure_removes_only_org_alias [where exec = ?exec and loads = ?loads
      and w = "[]" and ?w1.0 = ?w1]
  have pre: "ss_org_alias ?s = None \<and>
      [Line ''MyOrg'', Line ''Other''] = Line ''MyOrg'' # [Line ''Other''] \<and>
      lower (strip ''MyOrg'') \<noteq> ''start over'' \<and>
      authenticate_org ?exec ?loads (strip ''MyOrg'') ([] @ ?w0) = (Inr False, ?w1)"
    using no s by (simp add: cleared_def)
  have a: "iteration ?exec ?loads ?s [Line ''MyOrg'', Line ''Other''] [] =
     (Continue, ?s, [Line ''Other''], ?w1 @ [Print ''Error: Unable to authenticate. Try again.''])"
    using t [where s = ?s and ins = "[Line ''MyOrg'', Line ''Other'']" and raw = "''MyOrg''"
        and rest = "[Line ''Other'']"] no s
    by (simp add: cleared_def del: main_loop.simps)
  have "\<exists>evs. snd (snd (snd (main_loop ?exec ?loads ?s [Line ''MyOrg'', Line ''Other''] []))) =
      ?w1 @ Print ''Error: Unable to authenticate. Try again.'' #
            Print (CHR 0x0A # ''Welcome to SF Record Search!'') #
            Prompt ''Enter Salesforce org alias (e.g., MyOrg): '' # evs"
    by (rule t [where s = ?s and ins = "[Line ''MyOrg'', Line ''Other'']" and raw = "''MyOrg''"
        and rest = "[Line ''Other'']", THEN conjunct1, THEN mp, OF pre,
        THEN conjunct2, THEN conjunct2])
  then obtain evs where
    "snd (snd (snd (main_loop ?exec ?loads ?s [Line ''MyOrg'', Line ''Other''] []))) =
      ?w1 @ Print ''Error: Unable to authenticate. Try again.'' #
            Print (CHR 0x0A # ''Welcome to SF Record Search!'') #
            Prompt ''Enter Salesforce org alias (e.g., MyOrg): '' # evs"
    by blast
  then have c: "take 6 (snd (snd (snd
      (main_loop ?exec ?loads ?s [Line ''MyOrg'', Line ''Other''] [])))) =
     [Print (CHR 0x0A # ''Welcome to SF Record Search!''),
      Prompt ''Enter Salesforce org alias (e.g., MyOrg): '',
      Run ''sfdx force:auth:list --json'',
      Print ''Error: Unable to authenticate. Try again.'',
      Print (CHR 0x0A # ''Welcome to SF Record Search!''),
      Prompt ''Enter Salesforce org alias (e.g., MyOrg): '']"
    by (simp del: main_loop.simps)
  have "iteration ?exec ?loads cleared [Line ''Other''] [] =
     step_object_name ?exec ?loads (cleared\<lparr>ss_org_alias := Some ''Other''\<rparr>) ''Other'' [] ?w1"
    using t [where s = cleared and ins = "[Line ''Other'']" and raw = "''Other''"
        and rest = "[]"] yes s
    by (simp add: cleared_def del: main_loop.simps)
  then have b: "iteration ?exec ?loads cleared [Line ''Other''] [] =
     (Raise EOFError, cleared\<lparr>ss_org_alias := Some ''Other''\<rparr>, [],
      ?w1 @ [Prompt ''Enter the object name (or part of it) to search: ''])"
    by (simp add: step_object_name_def input_line_def cleared_def)
  from a b c show ?thesis
    by (simp del: main_loop.simps)
qed

lemma execute_search_state:
  "fst (snd (execute_search exec loads s a ob f k l ins w)) = s"
  by (simp add: execute_search_def split: prod.splits sum.splits)

text \<open>
  C6. At the limit prompt, with no limit in the state and an answer other than
  \<open>start over\<close>: an answer that is empty or \<open>all\<close> in any case stores \<open>None\<close> under
  \<open>limit\<close>; any other answer goes through \<open>int\<close>, whose result is stored; when \<open>int\<close>
  rejects the answer, the pass ends with \<open>ValueError\<close> before any search. An exception
  that leaves a pass leaves \<open>main\<close> as well: the only handler is the one for
  \<open>KeyboardInterrupt\<close>. So a session that answers the first four prompts and then
  gives a limit \<open>int\<close> rejects ends in \<open>ValueError\<close>.
\<close>

theorem limit_collection:
  "ss_limit s = None \<Longrightarrow> lower (strip raw) \<noteq> ''start over'' \<Longrightarrow>
     (lower (strip raw) \<in> set [''all'', []] \<longrightarrow>
        step_limit exec loads s a ob f k (Line raw # rest) w =
          execute_search exec loads (s\<lparr>ss_limit := Some LimitNone\<rparr>) a ob f k
            (LimitStr (strip raw)) rest
            (w @ [Prompt (''Enter the number of records to return (or '' @ [CHR 0x27] @
                          ''All'' @ [CHR 0x27] @ '' for no limit): '')]) \<and>
        ss_limit (fst (snd (step_limit exec loads s a ob f k (Line raw # rest) w))) =
          Some LimitNone) \<and>
     (lower (strip raw) \<notin> set [''all'', []] \<and> py_int (strip raw) = Some n \<longrightarrow>
        step_limit exec loads s a ob f k (Line raw # rest) w =
          execute_search exec loads (s\<lparr>ss_limit := Some (LimitInt n)\<rparr>) a ob f k
            (LimitStr (strip raw)) rest
            (w @ [Prompt (''Enter the number of records to return (or '' @ [CHR 0x27] @
                          ''All'' @ [CHR 0x27] @ '' for no limit): '')]) \<and>
        ss_limit (fst (snd (step_limit exec loads s a ob f k (Line raw # rest) w))) =
          Some (LimitInt n)) \<and>
     (lower (strip raw) \<notin> set [''all'', []] \<and> py_int (strip raw) = None \<longrightarrow>
        step_limit exec loads s a ob f k (Line raw # rest) w =
          (Raise ValueError, s, rest,
           w @ [Prompt (''Enter the number of records to return (or '' @ [CHR 0x27] @
                        ''All'' @ [CHR 0x27] @ '' for no limit): '')])) \<and>
     (\<forall>s0 ins0 w0 e s' rest' w'.
        iteration exec loads s0 ins0 w0 = (Raise e, s', rest', w') \<longrightarrow>
        main_loop exec loads s0 ins0 w0 = (Raise e, s', rest', w')) \<and>
     (lower (strip raw) \<notin> set [''all'', []] \<and> py_int (strip raw) = None \<and>
      lower (strip r1) \<noteq> ''start over'' \<and> lower (strip r2) \<noteq> ''start over'' \<and>
      lower (strip r3) \<noteq> ''start over'' \<and> lower (strip r4) \<noteq> ''start over'' \<and>
      authenticate_org exec loads (strip r1)
        [Print (CHR 0x0A # ''Welcome to SF Record Search!''),
         Prompt ''Enter Salesforce org alias (e.g., MyOrg): ''] = (Inr True, w1) \<longrightarrow>
      fst (main exec loads (Line r1 # Line r2 # Line r3 # Line r4 # Line raw # rest)) =
        Raise ValueError \<and>
      invoked (snd (snd (snd
        (main exec loads (Line r1 # Line r2 # Line r3 # Line r4 # Line raw # rest))))) =
        [''sfdx force:auth:list --json''])"
proof -
  assume none: "ss_limit s = None" and nso: "lower (strip raw) \<noteq> ''start over''"
  let ?p = "''Enter the number of records to return (or '' @ [CHR 0x27] @
            ''All'' @ [CHR 0x27] @ '' for no limit): ''"
  have all: "step_limit exec loads s a ob f k (Line raw # rest) w =
          execute_search exec loads (s\<lparr>ss_limit := Some LimitNone\<rparr>) a ob f k
            (LimitStr (strip raw)) rest (w @ [Prompt ?p]) \<and>
        ss_limit (fst (snd (step_limit exec loads s a ob f k (Line raw # rest) w))) =
          Some LimitNone"
    if "lower (strip raw) \<in> set [''all'', []]"
  proof -
    from that none nso have "step_limit exec loads s a ob f k (Line raw # rest) w =
          execute_search exec loads (s\<lparr>ss_limit := Some LimitNone\<rparr>) a ob f k
            (LimitStr (strip raw)) rest (w @ [Prompt ?p])"
      by (simp add: step_limit_def input_line_def Let_def)
    then show ?thesis
      by (simp add: execute_search_state)
  qed
  have num: "step_limit exec loads s a ob f k (Line raw # rest) w =
          execute_search exec loads (s\<lparr>ss_limit := Some (LimitInt n)\<rparr>) a ob f k
            (LimitStr (strip raw)) rest (w @ [Prompt ?p]) \<and>
        ss_limit (fst (snd (step_limit exec loads s a ob f k (Line raw # rest) w))) =
          Some (LimitInt n)"
    if "lower (strip raw) \<notin> set [''all'', []]" "py_int (strip raw) = Some n"
  proof -
    from that none nso have "step_limit exec loads s a ob f k (Line raw # rest) w =
          execute_search exec loads (s\<lparr>ss_limit := Some (LimitInt n)\<rparr>) a ob f k
            (LimitStr (strip raw)) rest (w @ [Prompt ?p])"
      by (simp add: step_limit_def input_line_def Let_def)
    then show ?thesis
      by (simp add: execute_search_state)
  qed
  have bad: "step_limit exec loads s2 a2 ob2 f2 k2 (Line raw # rest) w2 =
          (Raise ValueError, s2, rest, w2 @ [Prompt ?p])"
    if "ss_limit s2 = None" "lower (strip raw) \<notin> set [''all'', []]" "py_int (strip raw) = None"
    for s2 a2 ob2 f2 k2 w2
    using that nso by (simp add: step_limit_def input_line_def Let_def)
  have up: "\<forall>s0 ins0 w0 e s' rest' w'.
        iteration exec loads s0 ins0 w0 = (Raise e, s', rest', w') \<longrightarrow>
        main_loop exec loads s0 ins0 w0 = (Raise e, s', rest', w')"
    by (simp add: main_loop_stops)
  have session: "fst (main exec loads (Line r1 # Line r2 # Line r3 # Line r4 # Line raw # rest)) =
        Raise ValueError \<and>
      invoked (snd (snd (snd
        (main exec loads (Line r1 # Line r2 # Line r3 # Line r4 # Line raw # rest))))) =
        [''sfdx force:auth:list --json'']"
    if b: "lower (strip raw) \<notin> set [''all'', []]" "py_int (strip raw) = None"
      and r: "lower (strip r1) \<noteq> ''start over''" "lower (strip r2) \<noteq> ''start over''"
        "lower (strip r3) \<noteq> ''start over''" "lower (strip r4) \<noteq> ''start over''"
      and au: "authenticate_org exec loads (strip r1)
        [Print (CHR 0x0A # ''Welcome to SF Record Search!''),
         Prompt ''Enter Salesforce org alias (e.g., MyOrg): ''] = (Inr True, w1)"
  proof -
    let ?ins = "Line r1 # Line r2 # Line r3 # Line r4 # Line raw # rest"
    have "\<exists>s' w'. iteration exec loads cleared ?ins [] = (Raise ValueError, s', rest, w') \<and>
            invoked w' = invoked w1"
      using r au bad [OF _ b]
      by (simp add: iteration_def step_org_alias_def step_authenticate_def step_object_name_def
          step_fields_def step_keyword_def input_line_def Let_def cleared_def invoked_append)
    then obtain s' w' where it: "iteration exec loads cleared ?ins [] = (Raise ValueError, s', rest, w')"
      and inv: "invoked w' = invoked w1"
      by blast
    from it have "main exec loads ?ins = (Raise ValueError, s', rest, w')"
      by (simp add: main_def main_loop_stops)
    moreover from authenticate_org_invoked [OF au]
    have "invoked w1 = [''sfdx force:auth:list --json'']"
      by simp
    ultimately show ?thesis
      using inv by simp
  qed
  from all num bad [OF none] up session show ?thesis
    by blast
qed

text \<open>
  The tool lists the org \<open>MyOrg\<close>. The answer \<open>ALL\<close> stores \<open>None\<close>, the answer
  \<open>25\<close> stores 25, and the session that answers \<open>ten\<close> dies of \<open>ValueError\<close>
  after the auth-list command alone.
\<close>

theorem limit_collection_witness:
  \<open>ss_limit (fst (snd (step_limit
       (fixed_executor (Completed ''{"result": [{"alias": "MyOrg"}]}''))
       (table_loader [(''{"result": [{"alias": "MyOrg"}]}'',
          JObj [(''result'', JArr [JObj [(''alias'', JStr ''MyOrg'')]])])])
       cleared ''MyOrg'' ''Account'' (FieldsStr ''Id,Name'') ''Acme'' [Line ''ALL''] []))) =
     Some LimitNone \<and>
   ss_limit (fst (snd (step_limit
       (fixed_executor (Completed ''{"result": [{"alias": "MyOrg"}]}''))
       (table_loader [(''{"result": [{"alias": "MyOrg"}]}'',
          JObj [(''result'', JArr [JObj [(''alias'', JStr ''MyOrg'')]])])])
       cleared ''MyOrg'' ''Account'' (FieldsStr ''Id,Name'') ''Acme'' [Line '' 25 ''] []))) =
     Some (LimitInt 25) \<and>
   fst (main
       (fixed_executor (Completed ''{"result": [{"alias": "MyOrg"}]}''))
       (table_loader [(''{"result": [{"alias": "MyOrg"}]}'',
          JObj [(''result'', JArr [JObj [(''alias'', JStr ''MyOrg'')]])])])
       [Line ''MyOrg'', Line ''Account'', Line ''Id,Name'', Line ''Acme'', Line ''ten'']) =
     Raise ValueError \<and>
   invoked (snd (snd (snd (main
       (fixed_executor (Completed ''{"result": [{"alias": "MyOrg"}]}''))
       (table_loader [(''{"result": [{"alias": "MyOrg"}]}'',
          JObj [(''result'', JArr [JObj [(''alias'', JStr ''MyOrg'')]])])])
       [Line ''MyOrg'', Line ''Account'', Line ''Id,Name'', Line ''Acme'', Line ''ten''])))) =
     [''sfdx force:auth:list --json'']\<close>
proof -
  let ?txt = \<open>''{"result": [{"alias": "MyOrg"}]}''\<close>
  let ?exec = "fixed_executor (Completed ?txt)"
  let ?loads = "table_loader [(?txt, JObj [(''result'', JArr [JObj [(''alias'', JStr ''MyOrg'')]])])]"
  have c: "ss_limit cleared = None"
    by (simp add: cleared_def)
  have lows: "lower (strip ''ALL'') = ''all''" "lower (strip '' 25 '') = ''25''"
    "lower (strip ''ten'') = ''ten''" "lower (strip ''MyOrg'') = ''myorg''"
    "lower (strip ''Account'') = ''account''" "lower (strip ''Id,Name'') = ''id,name''"
    "lower (strip ''Acme'') = ''acme''"
    by (simp_all add: strip_def isspace_def lower_def lower_char_def upper_chars_def
        lower_chars_def)
  have ints: "py_int (strip '' 25 '') = Some 25" "py_int (strip ''ten'') = None"
    by (simp_all add: py_int_def strip_def isspace_def parse_unsigned_def is_digit_def
        digit_val_def)
  have au: "authenticate_org ?exec ?loads (strip ''MyOrg'')
        [Print (CHR 0x0A # ''Welcome to SF Record Search!''),
         Prompt ''Enter Salesforce org alias (e.g., MyOrg): ''] =
        (Inr True,
         [Print (CHR 0x0A # ''Welcome to SF Record Search!''),
          Prompt ''Enter Salesforce org alias (e.g., MyOrg): '',
          Run ''sfdx force:auth:list --json''])"
    by (simp add: authenticate_org_def run_command_def fixed_executor_def table_loader_def
        get_method_def dict_get_def py_iter_def strip_def isspace_def)
  have a: "ss_limit (fst (snd (step_limit ?exec ?loads cleared ''MyOrg'' ''Account''
             (FieldsStr ''Id,Name'') ''Acme'' [Line ''ALL''] []))) = Some LimitNone"
    using limit_collection [OF c, where raw = "''ALL''" and exec = ?exec and loads = ?loads
        and rest = "[]" and w = "[]"] lows
    by (simp add: execute_search_state)
  have b: "ss_limit (fst (snd (step_limit ?exec ?loads cleared ''MyOrg'' ''Account''
             (FieldsStr ''Id,Name'') ''Acme'' [Line '' 25 ''] []))) = Some (LimitInt 25)"
    using limit_collection [OF c, where raw = "'' 25 ''" and exec = ?exec and loads = ?loads
        and rest = "[]" and w = "[]" and n = 25] lows ints
    by (simp add: execute_search_state)
  have d: "fst (main ?exec ?loads
             [Line ''MyOrg'', Line ''Account'', Line ''Id,Name'', Line ''Acme'', Line ''ten'']) =
           Raise ValueError \<and>
           invoked (snd (snd (snd (main ?exec ?loads
             [Line ''MyOrg'', Line ''Account'', Line ''Id,Name'', Line ''Acme'', Line ''ten''])))) =
           [''sfdx force:auth:list --json'']"
    using limit_collection [OF c, where raw = "''ten''" and exec = ?exec and loads = ?loads
        and rest = "[]" and ?r1.0 = "''MyOrg''" and ?r2.0 = "''Account''" and ?r3.0 = "''Id,Name''"
        and ?r4.0 = "''Acme''"] lows ints au
    by simp
  from a b d show ?thesis
    by simp
qed

text \<open>
  A whole session: the tool lists \<open>MyOrg\<close>, the user asks for the fields
  \<open>Id,Name\<close> and leaves the limit empty, and the search finds nothing. The state
  holds the list of the two fields and the limit \<open>None\<close>, but the call of
  \<open>SF_record_search\<close> gets the locals \<open>fields\<close> and \<open>limit\<close>, which still are the
  answers as typed: the query names the characters of \<open>Id,Name\<close> as fields and has
  the clause \<open>LIMIT\<close> with nothing after it.
\<close>

lemma session_uses_raw_answers:
  \<open>(case main (scripted_executor [Completed ''{"result": [{"alias": "MyOrg"}]}'',
                                   Completed ''{"result": {"records": []}}''])
            (table_loader
               [(''{"result": [{"alias": "MyOrg"}]}'',
                 JObj [(''result'', JArr [JObj [(''alias'', JStr ''MyOrg'')]])]),
                (''{"result": {"records": []}}'',
                 JObj [(''result'', JObj [(''records'', JArr [])])])])
            [Line ''MyOrg'', Line ''Account'', Line ''Id,Name'', Line ''Acme Corp'', Line []]
     of (out, s', rest, w') \<Rightarrow>
          (out, ss_fields s', ss_limit s',
           filter (\<lambda>e. case e of LogInfo x \<Rightarrow> True | _ \<Rightarrow> False) w',
           last w')) =
     (Break, Some (FieldsList [''Id'', ''Name'']), Some LimitNone,
      [LogInfo (''Executing query: FIND {Acme} OR FIND {Corp} OR FIND {Acme Corp} '' @
                ''RETURNING Account(I, d, ,, N, a, m, e LIMIT )'')],
      PrintResult (Text ''No records found.''))\<close>
  by (simp add: main_def wizard_eval scripted_executor_def SF_record_search_def build_query_def
      keyword_conditions_def split_ws_def find_clause_def fields_or_default_def limit_clause_def
      format_limit_def search_command_def search_body_def split_on_def invoked_append)

end
